theory Spec2Isabelle
  imports Complex_Main "HOL-Library.Log_Nat" "HOL-Library.Sublist" "HOL-Library.AList"
begin

section \<open>Translation cost calculator: rate hierarchy, cost engine and Trados CSV parser\<close>

text \<open>
  A shallow embedding of the Python sources \<^verbatim>\<open>core/models/rate.py\<close>,
  \<^verbatim>\<open>core/models/analysis.py\<close>, \<^verbatim>\<open>core/models/match_category.py\<close>,
  \<^verbatim>\<open>core/services/calculation_service.py\<close>, \<^verbatim>\<open>parsers/column_detector.py\<close> and
  \<^verbatim>\<open>parsers/trados_csv_parser.py\<close>. Python integers are \<open>int\<close>; \<open>Optional[int]\<close> is
  \<open>int option\<close>; an exception is the left summand of a sum type; a \<open>dict\<close> is an association
  list in insertion order; logging is left out, since it changes no value.
\<close>

subsection \<open>Exceptions\<close>

datatype py_error =
  OverflowError | AttributeError | InvalidOperation | ValueError | TypeError
  | ZeroDivisionError | IndexError | ParserError

subsection \<open>Match categories (\<^verbatim>\<open>match_category.py\<close>)\<close>

datatype MatchCategoryType =
    CONTEXT_MATCH | REPETITIONS | EXACT_MATCH | HIGH_FUZZY | MEDIUM_HIGH_FUZZY
  | MEDIUM_FUZZY | LOW_FUZZY | NO_MATCH' | MT_MATCH

fun category_value :: "MatchCategoryType \<Rightarrow> string" where
  "category_value CONTEXT_MATCH = ''Context Match''"
| "category_value REPETITIONS = ''Repetitions''"
| "category_value EXACT_MATCH = ''100%''"
| "category_value HIGH_FUZZY = ''95% - 99%''"
| "category_value MEDIUM_HIGH_FUZZY = ''85% - 94%''"
| "category_value MEDIUM_FUZZY = ''75% - 84%''"
| "category_value LOW_FUZZY = ''50% - 74%''"
| "category_value NO_MATCH' = ''No Match''"
| "category_value MT_MATCH = ''MT Match''"

definition get_all_categories :: "MatchCategoryType list" where
  "get_all_categories =
     [CONTEXT_MATCH, REPETITIONS, EXACT_MATCH, HIGH_FUZZY, MEDIUM_HIGH_FUZZY,
      MEDIUM_FUZZY, LOW_FUZZY, NO_MATCH', MT_MATCH]"

definition get_standard_categories :: "MatchCategoryType list" where
  "get_standard_categories =
     [CONTEXT_MATCH, REPETITIONS, EXACT_MATCH, HIGH_FUZZY, MEDIUM_HIGH_FUZZY,
      MEDIUM_FUZZY, LOW_FUZZY, NO_MATCH']"

text \<open>\<^verbatim>\<open>from_display_name\<close>: the first member of the enumeration whose value is the name.\<close>

definition from_display_name :: "string \<Rightarrow> MatchCategoryType option" where
  "from_display_name display_name =
     find (\<lambda>category. category_value category = display_name) get_all_categories"

definition supports_mt_breakdown :: "MatchCategoryType \<Rightarrow> bool" where
  "supports_mt_breakdown c = (c = EXACT_MATCH)"

subsection \<open>Decimal numbers (\<^verbatim>\<open>decimal.Decimal\<close>)\<close>

text \<open>
  A finite \<^verbatim>\<open>Decimal\<close> is a signed coefficient and an exponent: \<open>coefficient * 10 ^ exponent\<close>.
  \<^verbatim>\<open>Decimal('0.0500')\<close> is \<open>\<lparr>coefficient = 500, exponent = -4\<rparr>\<close>.
\<close>

record decimal =
  coefficient :: int
  exponent :: int

definition dec_value :: "decimal \<Rightarrow> rat" where
  "dec_value d = of_int (coefficient d) * (10::rat) powi (exponent d)"

subsection \<open>Rates (\<^verbatim>\<open>rate.py\<close>)\<close>

text \<open>
  The fields of the dataclass \<^verbatim>\<open>Rate\<close>, without the two timestamps and the two related
  objects, which no modelled function reads. The field \<^verbatim>\<open>id\<close> is \<open>rate_id\<close> here.
\<close>

record Rate =
  rate_id :: "int option"
  translator_id :: int
  client_id :: "int option"
  language_pair_id :: int
  match_category_id :: int
  rate_per_word :: decimal
  minimum_fee :: decimal
  is_minimum_fee_enabled :: bool
  currency :: string

text \<open>The truth value Python gives to an \<^verbatim>\<open>Optional[int]\<close> in \<^verbatim>\<open>if client_id:\<close>.\<close>

definition truthy_id :: "int option \<Rightarrow> bool" where
  "truthy_id c = (case c of None \<Rightarrow> False | Some n \<Rightarrow> n \<noteq> 0)"

text \<open>The first list comprehension of \<^verbatim>\<open>resolve_rate_hierarchy\<close>.\<close>

definition applicable_rates :: "Rate list \<Rightarrow> int \<Rightarrow> int \<Rightarrow> int \<Rightarrow> Rate list" where
  "applicable_rates rates tid lpid mcid =
     filter (\<lambda>rate. translator_id rate = tid \<and> language_pair_id rate = lpid
                    \<and> match_category_id rate = mcid) rates"

definition resolve_rate_hierarchy ::
    "Rate list \<Rightarrow> int \<Rightarrow> int \<Rightarrow> int \<Rightarrow> int option \<Rightarrow> Rate option" where
  "resolve_rate_hierarchy rates tid lpid mcid cid =
     (let applicable = applicable_rates rates tid lpid mcid in
      if applicable = [] then None
      else
        let client_rates = filter (\<lambda>rate. client_id rate = cid) applicable in
        if truthy_id cid \<and> client_rates \<noteq> [] then Some (hd client_rates)
        else
          let general_rates = filter (\<lambda>rate. client_id rate = None) applicable in
          if general_rates \<noteq> [] then Some (hd general_rates) else None)"

text \<open>
  Rates used as concrete inputs: of translator 1, language pair 1, category 1, and of any
  translator, language pair and category.
\<close>

definition rate_of_triple :: "int \<Rightarrow> int \<Rightarrow> int \<Rightarrow> int option \<Rightarrow> Rate" where
  "rate_of_triple tid lpid mcid c =
     \<lparr>rate_id = None, translator_id = tid, client_id = c, language_pair_id = lpid,
      match_category_id = mcid,
      rate_per_word = \<lparr>coefficient = 500, exponent = -4\<rparr>,
      minimum_fee = \<lparr>coefficient = 0, exponent = -2\<rparr>,
      is_minimum_fee_enabled = False, currency = ''EUR''\<rparr>"

definition rate_of_client :: "int option \<Rightarrow> Rate" where
  "rate_of_client c =
     \<lparr>rate_id = None, translator_id = 1, client_id = c, language_pair_id = 1,
      match_category_id = 1,
      rate_per_word = \<lparr>coefficient = 500, exponent = -4\<rparr>,
      minimum_fee = \<lparr>coefficient = 0, exponent = -2\<rparr>,
      is_minimum_fee_enabled = False, currency = ''EUR''\<rparr>"

subsection \<open>Python strings\<close>

text \<open>
  A \<^verbatim>\<open>str\<close> is a \<open>string\<close>, one \<open>char\<close> for each code point below 256. The methods
  below are the ones the parser calls. \<^verbatim>\<open>s.split(sep)\<close> cuts at every occurrence of
  the separator from the left, without overlap; every separator in the sources is a
  non-empty literal (an empty one raises in Python and cuts nowhere here).
\<close>

function split_str :: "string \<Rightarrow> string \<Rightarrow> string list" where
  "split_str sep [] = [[]]"
| "split_str sep (x # xs) =
     (if sep \<noteq> [] \<and> prefix sep (x # xs)
      then [] # split_str sep (drop (length sep) (x # xs))
      else (case split_str sep xs of [] \<Rightarrow> [[x]] | w # ws \<Rightarrow> (x # w) # ws))"
  by pat_completeness auto
termination
  by (relation "measure (\<lambda>(sep, s). length s)") auto

text \<open>\<^verbatim>\<open>sub in s\<close> for two strings.\<close>

fun contains :: "string \<Rightarrow> string \<Rightarrow> bool" where
  "contains sub [] = (sub = [])"
| "contains sub (x # xs) = (prefix sub (x # xs) \<or> contains sub xs)"

text \<open>
  \<^verbatim>\<open>str.isspace\<close> on one character: the code points 9 to 13, 28 to 32, 133 and 160 are
  the white space below 256.
\<close>

definition py_isspace :: "char \<Rightarrow> bool" where
  "py_isspace c =
     (let n = (of_char c :: nat)
      in (9 \<le> n \<and> n \<le> 13) \<or> (28 \<le> n \<and> n \<le> 32) \<or> n = 133 \<or> n = 160)"

text \<open>\<^verbatim>\<open>s.strip()\<close> and \<^verbatim>\<open>s.strip(chars)\<close>.\<close>

definition strip :: "string \<Rightarrow> string" where
  "strip s = rev (dropWhile py_isspace (rev (dropWhile py_isspace s)))"

definition strip_chars :: "string \<Rightarrow> string \<Rightarrow> string" where
  "strip_chars chars s =
     rev (dropWhile (\<lambda>c. c \<in> set chars) (rev (dropWhile (\<lambda>c. c \<in> set chars) s)))"

text \<open>\<^verbatim>\<open>s.replace(c, '')\<close> for a single character \<open>c\<close>.\<close>

definition remove_char :: "char \<Rightarrow> string \<Rightarrow> string" where
  "remove_char c s = filter (\<lambda>x. x \<noteq> c) s"

text \<open>
  \<^verbatim>\<open>s.lower()\<close>: below 256 the upper-case letters are 65 to 90 and 192 to 222 without
  215, each 32 below its lower-case letter.
\<close>

definition lower_char :: "char \<Rightarrow> char" where
  "lower_char c =
     (let n = (of_char c :: nat)
      in if (65 \<le> n \<and> n \<le> 90) \<or> (192 \<le> n \<and> n \<le> 222 \<and> n \<noteq> 215)
         then char_of (n + 32) else c)"

definition lower :: "string \<Rightarrow> string" where
  "lower s = map lower_char s"

text \<open>\<^verbatim>\<open>len\<close> of a list, as a Python integer.\<close>

abbreviation len :: "'a list \<Rightarrow> int" where
  "len xs \<equiv> int (length xs)"

subsection \<open>Dictionaries\<close>

text \<open>
  A \<^verbatim>\<open>dict\<close> is an association list with distinct keys, in insertion order.
  \<^verbatim>\<open>d[k] = v\<close> is \<open>AList.update k v d\<close>: it replaces the value of a key that is present
  and appends a new key at the end, as Python does; \<^verbatim>\<open>d.get(k)\<close> is \<open>map_of d k\<close>.
\<close>

type_synonym ('k, 'v) dict = "('k \<times> 'v) list"

definition dict_keys :: "('k, 'v) dict \<Rightarrow> 'k list" where
  "dict_keys d = map fst d"

definition dict_values :: "('k, 'v) dict \<Rightarrow> 'v list" where
  "dict_values d = map snd d"

subsection \<open>Column detection (\<^verbatim>\<open>column_detector.py\<close>)\<close>

text \<open>The field \<^verbatim>\<open>categories\<close> of \<^verbatim>\<open>ColumnMapping\<close> is \<open>mapped_categories\<close> here.\<close>

record ColumnMapping =
  format_type :: string
  mapped_categories :: "(MatchCategoryType, (string, int) dict) dict"
  fixed_columns :: "(string, int) dict"
  total_columns :: "(string, int) dict"

definition get_category_column ::
    "ColumnMapping \<Rightarrow> MatchCategoryType \<Rightarrow> string \<Rightarrow> int option" where
  "get_category_column mapping category field =
     (case map_of (mapped_categories mapping) category of
        Some m \<Rightarrow> map_of m field
      | None \<Rightarrow> None)"

definition has_characters_column :: "ColumnMapping \<Rightarrow> bool" where
  "has_characters_column mapping = (format_type mapping = ''with_characters'')"

definition detect_format :: "string list \<Rightarrow> string" where
  "detect_format header_lines =
     (if length header_lines < 2 then ''without_characters''
      else
        let second_line = header_lines ! 1;
            column_headers = map strip (split_str '';'' second_line);
            characters_count = length (filter (contains ''Characters'') column_headers);
            total_columns = length column_headers
        in if total_columns \<ge> 45 \<or> characters_count \<ge> 6
           then ''with_characters'' else ''without_characters'')"

definition extract_categories_from_header :: "string \<Rightarrow> string list" where
  "extract_categories_from_header header_line =
     concat (map (\<lambda>part.
         if strip part \<noteq> [] then
           (let category_name = strip (remove_char (CHR '';'') part)
            in if category_name \<noteq> [] \<and> category_name \<notin> set [''Total'', ''File'']
               then [category_name] else [])
         else [])
       (split_str '';;;'' header_line))"

definition map_category_name_to_type :: "string \<Rightarrow> MatchCategoryType option" where
  "map_category_name_to_type category_name =
     map_of [(''Context Match'', CONTEXT_MATCH), (''Repetitions'', REPETITIONS),
             (''100%'', EXACT_MATCH), (''95% - 99%'', HIGH_FUZZY),
             (''85% - 94%'', MEDIUM_HIGH_FUZZY), (''75% - 84%'', MEDIUM_FUZZY),
             (''50% - 74%'', LOW_FUZZY), (''No Match'', NO_MATCH')] category_name"

text \<open>The fields of one category, by format.\<close>

definition category_fields :: "string \<Rightarrow> string list" where
  "category_fields fmt =
     (if fmt = ''with_characters''
      then [''segments'', ''words'', ''characters'', ''placeables'', ''percent'']
      else [''segments'', ''words'', ''placeables'', ''percent''])"

definition fields_per_category :: "string \<Rightarrow> int" where
  "fields_per_category fmt = (if fmt = ''with_characters'' then 5 else 4)"

text \<open>The loop over the first five column headers, which finds the fixed columns.\<close>

fun map_fixed_columns :: "(int \<times> string) list \<Rightarrow> (string, int) dict \<Rightarrow> (string, int) dict" where
  "map_fixed_columns [] fixed = fixed"
| "map_fixed_columns ((i, header) # rest) fixed =
     (let header_lower = lower header
      in if contains ''file'' header_lower
         then map_fixed_columns rest (AList.update ''File'' i fixed)
         else if contains ''tagging'' header_lower \<and> contains ''error'' header_lower
         then map_fixed_columns rest (AList.update ''Tagging Errors'' i fixed)
         else if contains ''chars'' header_lower \<and> contains ''word'' header_lower
         then map_fixed_columns rest (AList.update ''Chars/Word'' i fixed)
         else map_fixed_columns rest fixed)"

text \<open>
  The inner loop over the fields of one recognised category: a field gets the next column
  while a column is left, and is not recorded otherwise. The state is the column index and
  the mapping of the category.
\<close>

fun map_category_fields ::
    "string list \<Rightarrow> int \<Rightarrow> int \<Rightarrow> (string, int) dict \<Rightarrow> int \<times> (string, int) dict" where
  "map_category_fields [] n col_index category_mapping = (col_index, category_mapping)"
| "map_category_fields (field # rest) n col_index category_mapping =
     (if col_index < n
      then map_category_fields rest n (col_index + 1)
             (AList.update field col_index category_mapping)
      else map_category_fields rest n col_index category_mapping)"

text \<open>The loop over the category names: an unknown name skips the columns of one category.\<close>

fun map_category_columns ::
    "string \<Rightarrow> string list \<Rightarrow> int \<Rightarrow> int
      \<Rightarrow> (MatchCategoryType, (string, int) dict) dict
      \<Rightarrow> int \<times> (MatchCategoryType, (string, int) dict) dict" where
  "map_category_columns fmt [] n col_index categories = (col_index, categories)"
| "map_category_columns fmt (category_name # names) n col_index categories =
     (case map_category_name_to_type category_name of
        Some category_type \<Rightarrow>
          (let (col_index', category_mapping) =
                 map_category_fields (category_fields fmt) n col_index []
           in map_category_columns fmt names n col_index'
                (AList.update category_type category_mapping categories))
      | None \<Rightarrow>
          map_category_columns fmt names n (col_index + fields_per_category fmt) categories)"

text \<open>The columns of the total section, from the columns that remain.\<close>

definition map_total_columns :: "string \<Rightarrow> int \<Rightarrow> int \<Rightarrow> (string, int) dict" where
  "map_total_columns fmt n col_index =
     (let remaining_cols = n - col_index
      in if remaining_cols \<ge> 3 then
           (let t = [(''segments'', col_index), (''words'', col_index + 1)]
            in if fmt = ''with_characters'' then
                 (if remaining_cols \<ge> 4
                  then t @ [(''placeables'', col_index + 2), (''characters'', col_index + 3)]
                  else t)
               else
                 (let t' = (if remaining_cols \<ge> 3
                            then t @ [(''placeables'', col_index + 2)] else t)
                  in if remaining_cols \<ge> 4
                     then t' @ [(''characters'', col_index + 3)] else t'))
         else [])"

definition create_column_mapping :: "string \<Rightarrow> string list \<Rightarrow> string list \<Rightarrow> ColumnMapping" where
  "create_column_mapping fmt category_names column_headers =
     (let fixed = map_fixed_columns
                    (zip (map int [0 ..< length (take 5 column_headers)]) (take 5 column_headers)) [];
          fixed' = (if map_of fixed ''File'' = None then AList.update ''File'' 0 fixed else fixed);
          (col_index, categories) =
            map_category_columns fmt category_names (len column_headers) 3 []
      in \<lparr>format_type = fmt, mapped_categories = categories, fixed_columns = fixed',
          total_columns = map_total_columns fmt (len column_headers) col_index\<rparr>)"

text \<open>\<^verbatim>\<open>map_columns\<close> raises \<^verbatim>\<open>ValueError\<close> on fewer than two header lines.\<close>

definition map_columns :: "string list \<Rightarrow> py_error + ColumnMapping" where
  "map_columns header_lines =
     (if length header_lines < 2 then Inl ValueError
      else Inr (create_column_mapping (detect_format header_lines)
                  (extract_categories_from_header (header_lines ! 0))
                  (map strip (split_str '';'' (header_lines ! 1)))))"

text \<open>The bounds loop of \<^verbatim>\<open>validate_mapping\<close>, which returns at the first index out of bounds.\<close>

fun indices_in_bounds :: "int list \<Rightarrow> int \<Rightarrow> bool" where
  "indices_in_bounds [] n = True"
| "indices_in_bounds (index # rest) n =
     (if index < 0 \<or> index \<ge> n then False else indices_in_bounds rest n)"

definition validate_mapping :: "ColumnMapping \<Rightarrow> int \<Rightarrow> bool" where
  "validate_mapping mapping n =
     (if ''File'' \<notin> set (dict_keys (fixed_columns mapping)) then False
      else if mapped_categories mapping = [] then False
      else
        let all_indices =
              dict_values (fixed_columns mapping) @ dict_values (total_columns mapping)
              @ concat (map dict_values (dict_values (mapped_categories mapping)))
        in indices_in_bounds all_indices n)"

text \<open>Header pairs used as concrete inputs: the first pair is the one of
  \<^verbatim>\<open>scripts/create_test_data.py\<close>; the second has too few columns for its categories.\<close>

definition sample_header_1 :: string where
  "sample_header_1 = '';;;Context Match;;;;;Repetitions;;;;;100%;;;;;95% - 99%;;;;;85% - 94%;;;;;75% - 84%;;;;;50% - 74%;;;;;No Match;;;;;Total''"

definition sample_header_2 :: string where
  "sample_header_2 = ''File;Tagging Errors;Chars/Word;Segments;Words;Characters;Placeables;Percent;Segments;Words;Characters;Placeables;Percent;Segments;Words;Characters;Placeables;Percent;Segments;Words;Characters;Placeables;Percent;Segments;Words;Characters;Placeables;Percent;Segments;Words;Characters;Placeables;Percent;Segments;Words;Characters;Placeables;Percent;Segments;Words;Characters;Placeables;Percent;Segments;Words;Placeables;Characters''"

definition short_header_1 :: string where
  "short_header_1 = '';;;Context Match;;;;;No Match''"

definition short_header_2 :: string where
  "short_header_2 = ''File;Tagging Errors;Chars/Word;Characters;Characters;Characters;Characters;Characters;Characters''"

text \<open>The mapping built from the second pair.\<close>

definition short_mapping :: ColumnMapping where
  "short_mapping =
     \<lparr>format_type = ''with_characters'',
      mapped_categories =
        [(CONTEXT_MATCH, [(''segments'', 3), (''words'', 4), (''characters'', 5),
                          (''placeables'', 6), (''percent'', 7)]),
         (NO_MATCH', [(''segments'', 8)])],
      fixed_columns = [(''File'', 0), (''Tagging Errors'', 1), (''Chars/Word'', 2)],
      total_columns = []\<rparr>"


subsection \<open>Binary floating point (\<^verbatim>\<open>float\<close>)\<close>

text \<open>
  A \<^verbatim>\<open>float\<close> is an IEEE 754 binary64 number: a rational with a significand of 53 bits,
  an infinity or a NaN (the sign of zero is left out: no modelled function reads it).
  \<open>round_half_even\<close> is the nearest integer, an exact half going to the even neighbour.
\<close>

datatype pyfloat = Finite rat | PosInf | NegInf | NaN

definition round_half_even :: "rat \<Rightarrow> int" where
  "round_half_even x =
     (let f = \<lfloor>x\<rfloor>; d = x - of_int f
      in if d < 1 / 2 then f else if 1 / 2 < d then f + 1
         else if even f then f else f + 1)"

text \<open>The binary exponent \<open>\<lfloor>log\<^sub>2 x\<rfloor>\<close> of a positive rational.\<close>

definition ilog2 :: "rat \<Rightarrow> int" where
  "ilog2 x =
     (case quotient_of x of (a, b) \<Rightarrow>
        if b \<le> a then bitlen (a div b) - 1 else - bitlen ((b - 1) div a))"

text \<open>
  The nearest binary64 number of a rational, without the overflow check: the spacing is
  \<open>2 ^ (e - 52)\<close> at exponent \<open>e\<close>, and the exponent is at least \<open>-1022\<close> (below it the
  numbers are subnormal).
\<close>

definition round_binary64 :: "rat \<Rightarrow> rat" where
  "round_binary64 x =
     (if x = 0 then 0
      else
        let e = max (ilog2 \<bar>x\<bar>) (- 1022);
            q = (2::rat) powi (e - 52)
        in of_int (round_half_even (x / q)) * q)"

text \<open>Rounding a rational the way \<^verbatim>\<open>float(s)\<close> does: too large a value is an infinity.\<close>

definition float_of_rat :: "rat \<Rightarrow> pyfloat" where
  "float_of_rat x =
     (let y = round_binary64 x
      in if 2 ^ 1024 \<le> y then PosInf else if y \<le> - (2 ^ 1024) then NegInf else Finite y)"

text \<open>
  \<^verbatim>\<open>a / b\<close> on two integers: the quotient, correctly rounded; \<^verbatim>\<open>OverflowError\<close> when it is
  too large for a float.
\<close>

definition int_truediv :: "int \<Rightarrow> int \<Rightarrow> py_error + pyfloat" where
  "int_truediv a b =
     (if b = 0 then Inl ZeroDivisionError
      else case float_of_rat (of_int a / of_int b) of
             Finite y \<Rightarrow> Inr (Finite y)
           | _ \<Rightarrow> Inl OverflowError)"

text \<open>\<^verbatim>\<open>int(x)\<close> on a float: truncation towards zero.\<close>

definition int_of_float :: "pyfloat \<Rightarrow> py_error + int" where
  "int_of_float x =
     (case x of
        Finite y \<Rightarrow> Inr (if 0 \<le> y then \<lfloor>y\<rfloor> else \<lceil>y\<rceil>)
      | PosInf \<Rightarrow> Inl OverflowError
      | NegInf \<Rightarrow> Inl OverflowError
      | NaN \<Rightarrow> Inl ValueError)"

text \<open>The comparisons of floats: every comparison with a NaN is false.\<close>

fun float_less :: "pyfloat \<Rightarrow> pyfloat \<Rightarrow> bool" where
  "float_less NaN y = False"
| "float_less x NaN = False"
| "float_less PosInf y = False"
| "float_less x NegInf = False"
| "float_less NegInf y = True"
| "float_less x PosInf = True"
| "float_less (Finite a) (Finite b) = (a < b)"

text \<open>\<^verbatim>\<open>min(a, b)\<close> and \<^verbatim>\<open>max(a, b)\<close>: the second argument only when it is strictly beyond the first.\<close>

definition float_min :: "pyfloat \<Rightarrow> pyfloat \<Rightarrow> pyfloat" where
  "float_min a b = (if float_less b a then b else a)"

definition float_max :: "pyfloat \<Rightarrow> pyfloat \<Rightarrow> pyfloat" where
  "float_max a b = (if float_less a b then b else a)"

subsection \<open>Numbers from strings (\<^verbatim>\<open>int(s)\<close> and \<^verbatim>\<open>float(s)\<close>)\<close>

text \<open>
  Both are called on stripped strings only, so the white space they would skip at either
  end is not modelled. A digit part is a digit followed by digits, each with at most one
  underscore before it.
\<close>

text \<open>
  The limit of the conversions between \<^verbatim>\<open>int\<close> and \<^verbatim>\<open>str\<close>
  (\<^verbatim>\<open>sys.int_info.default_max_str_digits\<close>) in Python 3.11, the version
  \<^verbatim>\<open>startup_verification.py\<close> requires: beyond that many digits, \<^verbatim>\<open>int(s)\<close> and
  \<^verbatim>\<open>str(n)\<close> raise \<^verbatim>\<open>ValueError\<close>. The digits are counted without sign and underscores,
  with leading zeros; \<^verbatim>\<open>float(s)\<close> has no such limit.
\<close>

definition max_str_digits :: nat where
  "max_str_digits = 4300"

definition is_digit :: "char \<Rightarrow> bool" where
  "is_digit c = (48 \<le> (of_char c :: nat) \<and> (of_char c :: nat) \<le> 57)"

definition digit_value :: "char \<Rightarrow> int" where
  "digit_value c = of_char c - 48"

definition digits_value :: "string \<Rightarrow> int" where
  "digits_value ds = foldl (\<lambda>acc c. 10 * acc + digit_value c) 0 ds"

text \<open>The digits that continue a digit part, and what is left of the string.\<close>

fun digits_tail :: "string \<Rightarrow> string \<times> string" where
  "digits_tail [] = ([], [])"
| "digits_tail [c] = (if is_digit c then ([c], []) else ([], [c]))"
| "digits_tail (c # d # cs) =
     (if is_digit c then (case digits_tail (d # cs) of (ds, r) \<Rightarrow> (c # ds, r))
      else if c = CHR ''_'' \<and> is_digit d
      then (case digits_tail cs of (ds, r) \<Rightarrow> (d # ds, r))
      else ([], c # d # cs))"

definition take_digitpart :: "string \<Rightarrow> string \<times> string" where
  "take_digitpart s =
     (case s of
        [] \<Rightarrow> ([], [])
      | c # cs \<Rightarrow> if is_digit c then (case digits_tail cs of (ds, r) \<Rightarrow> (c # ds, r))
                  else ([], s))"

definition take_sign :: "string \<Rightarrow> bool \<times> string" where
  "take_sign s =
     (case s of
        [] \<Rightarrow> (False, [])
      | c # cs \<Rightarrow> if c = CHR ''-'' then (True, cs)
                  else if c = CHR ''+'' then (False, cs) else (False, s))"

definition int_of_str :: "string \<Rightarrow> py_error + int" where
  "int_of_str s =
     (case take_sign s of (neg, s1) \<Rightarrow>
        case take_digitpart s1 of (ds, r) \<Rightarrow>
          if ds = [] \<or> r \<noteq> [] then Inl ValueError
          else if len ds > max_str_digits then Inl ValueError
          else Inr (if neg then - digits_value ds else digits_value ds))"

text \<open>
  The optional exponent of a float literal: \<open>None\<close> when it is malformed or something
  follows it.
\<close>

definition take_exponent :: "string \<Rightarrow> int option" where
  "take_exponent s =
     (case s of
        [] \<Rightarrow> Some 0
      | c # cs \<Rightarrow>
          if c = CHR ''e'' \<or> c = CHR ''E'' then
            (case take_sign cs of (neg, s1) \<Rightarrow>
               case take_digitpart s1 of (ds, r) \<Rightarrow>
                 if ds = [] \<or> r \<noteq> [] then None
                 else Some (if neg then - digits_value ds else digits_value ds))
          else None)"

definition float_of_str :: "string \<Rightarrow> py_error + pyfloat" where
  "float_of_str s =
     (case take_sign s of (neg, s1) \<Rightarrow>
        if lower s1 = ''inf'' \<or> lower s1 = ''infinity''
        then Inr (if neg then NegInf else PosInf)
        else if lower s1 = ''nan'' then Inr NaN
        else
          case take_digitpart s1 of (ip, r1) \<Rightarrow>
            let (fp, r2) = (case r1 of
                              [] \<Rightarrow> ([], [])
                            | c # cs \<Rightarrow> if c = CHR ''.'' then take_digitpart cs else ([], r1))
            in if ip = [] \<and> fp = [] then Inl ValueError
               else case take_exponent r2 of
                      None \<Rightarrow> Inl ValueError
                    | Some ex \<Rightarrow>
                        let m = (of_int (digits_value (ip @ fp)) :: rat)
                                  * 10 powi (ex - len fp);
                            x = (if neg then - m else m)
                        in Inr (float_of_rat x))"

text \<open>
  The handler \<^verbatim>\<open>except (ValueError, TypeError)\<close> of the safe conversions: these two
  exceptions give the default value, every other one is raised to the caller.
\<close>

definition except_value_type_error :: "py_error + 'a \<Rightarrow> 'a \<Rightarrow> py_error + 'a" where
  "except_value_type_error r dflt =
     (case r of
        Inl e \<Rightarrow> if e = ValueError \<or> e = TypeError then Inr dflt else Inl e
      | Inr v \<Rightarrow> Inr v)"

subsection \<open>Analysis data (\<^verbatim>\<open>analysis.py\<close>)\<close>

record MatchCategoryData =
  category :: MatchCategoryType
  segments :: int
  words :: int
  characters :: int
  placeables :: int
  percent :: pyfloat
  tm_words :: "int option"
  mt_words :: "int option"
  nt_words :: "int option"

definition has_tm_mt_breakdown :: "MatchCategoryData \<Rightarrow> bool" where
  "has_tm_mt_breakdown d = (tm_words d \<noteq> None \<or> mt_words d \<noteq> None \<or> nt_words d \<noteq> None)"

definition validate_tm_mt_breakdown :: "MatchCategoryData \<Rightarrow> MatchCategoryData" where
  "validate_tm_mt_breakdown d =
     (if \<not> supports_mt_breakdown (category d)
      then d\<lparr>tm_words := None, mt_words := None, nt_words := None\<rparr>
      else d\<lparr>tm_words := map_option (max 0) (tm_words d),
             mt_words := map_option (max 0) (mt_words d),
             nt_words := map_option (max 0) (nt_words d)\<rparr>)"

text \<open>The constructor of the dataclass, followed by \<^verbatim>\<open>__post_init__\<close>.\<close>

definition new_MatchCategoryData ::
    "MatchCategoryType \<Rightarrow> int \<Rightarrow> int \<Rightarrow> int \<Rightarrow> int \<Rightarrow> pyfloat
      \<Rightarrow> int option \<Rightarrow> int option \<Rightarrow> int option \<Rightarrow> MatchCategoryData" where
  "new_MatchCategoryData c s w ch p pc tm mt nt =
     (let d = \<lparr>category = c, segments = max 0 s, words = max 0 w, characters = max 0 ch,
               placeables = max 0 p,
               percent = float_max (Finite 0) (float_min (Finite 100) pc),
               tm_words = tm, mt_words = mt, nt_words = nt\<rparr>
      in if has_tm_mt_breakdown d then validate_tm_mt_breakdown d else d)"

text \<open>\<^verbatim>\<open>MatchCategoryData(category=c)\<close>: every other field at its default.\<close>

definition empty_MatchCategoryData :: "MatchCategoryType \<Rightarrow> MatchCategoryData" where
  "empty_MatchCategoryData c = new_MatchCategoryData c 0 0 0 0 (Finite 0) None None None"

text \<open>\<^verbatim>\<open>int(n / 100)\<close> for an integer \<open>n\<close>: a float division, then a truncation.\<close>

definition int_of_hundredth :: "int \<Rightarrow> py_error + int" where
  "int_of_hundredth n =
     (case int_truediv n 100 of Inl e \<Rightarrow> Inl e | Inr x \<Rightarrow> int_of_float x)"

definition get_tm_words :: "MatchCategoryData \<Rightarrow> int \<Rightarrow> py_error + int" where
  "get_tm_words d mt_percentage =
     (case (if has_tm_mt_breakdown d then tm_words d else None) of
        Some t \<Rightarrow> Inr t
      | None \<Rightarrow>
          if supports_mt_breakdown (category d) then
            (let tm_percentage = 100 - mt_percentage
             in int_of_hundredth (words d * tm_percentage))
          else Inr (words d))"

definition get_mt_words :: "MatchCategoryData \<Rightarrow> int \<Rightarrow> py_error + int" where
  "get_mt_words d mt_percentage =
     (case (if has_tm_mt_breakdown d then mt_words d else None) of
        Some m \<Rightarrow> Inr m
      | None \<Rightarrow>
          if supports_mt_breakdown (category d)
          then int_of_hundredth (words d * mt_percentage)
          else Inr 0)"

text \<open>The dictionary with the keys \<^verbatim>\<open>tm\<close>, \<^verbatim>\<open>mt\<close> and \<^verbatim>\<open>total\<close>, as a record.\<close>

record word_breakdown =
  wb_tm :: int
  wb_mt :: int
  wb_total :: int

definition get_cost_calculation_words :: "MatchCategoryData \<Rightarrow> int \<Rightarrow> py_error + word_breakdown" where
  "get_cost_calculation_words d mt_percentage =
     (case get_tm_words d mt_percentage of
        Inl e \<Rightarrow> Inl e
      | Inr tm \<Rightarrow>
          (case get_mt_words d mt_percentage of
             Inl e \<Rightarrow> Inl e
           | Inr mt \<Rightarrow> Inr \<lparr>wb_tm = tm, wb_mt = mt, wb_total = words d\<rparr>))"

text \<open>An exact-match category of \<open>2 ^ 54 + 3\<close> words without breakdown.\<close>

definition huge_exact_match :: MatchCategoryData where
  "huge_exact_match =
     new_MatchCategoryData EXACT_MATCH 1 18014398509481987 0 0 (Finite 100) None None None"

text \<open>The field \<^verbatim>\<open>categories\<close> of \<^verbatim>\<open>FileAnalysisData\<close> is \<open>file_categories\<close> here.\<close>

record FileAnalysisData =
  filename :: string
  source_language :: string
  target_language :: string
  file_categories :: "(MatchCategoryType, MatchCategoryData) dict"
  file_path :: "string option"
  analysis_date :: "string option"
  cat_tool :: "string option"

text \<open>
  The constructor, followed by \<^verbatim>\<open>__post_init__\<close>: an empty dictionary of categories is
  replaced by the eight standard categories, each empty.
\<close>

definition new_FileAnalysisData ::
    "string \<Rightarrow> string \<Rightarrow> string \<Rightarrow> (MatchCategoryType, MatchCategoryData) dict
      \<Rightarrow> string option \<Rightarrow> string option \<Rightarrow> string option \<Rightarrow> FileAnalysisData" where
  "new_FileAnalysisData fn src tgt cats fp ad ct =
     \<lparr>filename = fn, source_language = src, target_language = tgt,
      file_categories =
        (if cats = [] then map (\<lambda>c. (c, empty_MatchCategoryData c)) get_standard_categories
         else cats),
      file_path = fp, analysis_date = ad, cat_tool = ct\<rparr>"

definition get_category_data :: "FileAnalysisData \<Rightarrow> MatchCategoryType \<Rightarrow> MatchCategoryData" where
  "get_category_data fa c =
     (case map_of (file_categories fa) c of
        Some d \<Rightarrow> d
      | None \<Rightarrow> empty_MatchCategoryData c)"

definition set_category_data ::
    "FileAnalysisData \<Rightarrow> MatchCategoryType \<Rightarrow> MatchCategoryData \<Rightarrow> FileAnalysisData" where
  "set_category_data fa c d =
     fa\<lparr>file_categories := AList.update c (d\<lparr>category := c\<rparr>) (file_categories fa)\<rparr>"

definition get_total_words :: "FileAnalysisData \<Rightarrow> int" where
  "get_total_words fa = sum_list (map words (dict_values (file_categories fa)))"


definition is_valid :: "FileAnalysisData \<Rightarrow> bool" where
  "is_valid fa =
     (filename fa \<noteq> [] \<and> source_language fa \<noteq> [] \<and> target_language fa \<noteq> []
      \<and> get_total_words fa > 0)"

subsection \<open>Serialization (\<^verbatim>\<open>to_dict\<close>)\<close>

text \<open>The values a serialized dictionary holds.\<close>

datatype pyvalue =
    PyNone | PyStr string | PyInt int | PyFloat pyfloat
  | PyDict "(string \<times> pyvalue) list"

text \<open>
  \<^verbatim>\<open>MatchCategoryData.to_dict\<close> builds a dictionary whose first entry reads
  \<^verbatim>\<open>self.filename\<close>. The dataclass has no such attribute (its fields are the nine of
  the record above), so the evaluation of the dictionary stops there with
  \<^verbatim>\<open>AttributeError\<close>, for every object.
\<close>

definition MatchCategoryData_to_dict :: "MatchCategoryData \<Rightarrow> py_error + pyvalue" where
  "MatchCategoryData_to_dict d = Inl AttributeError"

text \<open>The dictionary comprehension over the categories: the first error ends it.\<close>

fun categories_to_dict ::
    "(MatchCategoryType, MatchCategoryData) dict \<Rightarrow> py_error + (string \<times> pyvalue) list" where
  "categories_to_dict [] = Inr []"
| "categories_to_dict ((c, d) # rest) =
     (case MatchCategoryData_to_dict d of
        Inl e \<Rightarrow> Inl e
      | Inr v \<Rightarrow>
          (case categories_to_dict rest of
             Inl e \<Rightarrow> Inl e
           | Inr vs \<Rightarrow> Inr (AList.update (category_value c) v vs)))"

definition py_optional_str :: "string option \<Rightarrow> pyvalue" where
  "py_optional_str s = (case s of None \<Rightarrow> PyNone | Some t \<Rightarrow> PyStr t)"

definition FileAnalysisData_to_dict :: "FileAnalysisData \<Rightarrow> py_error + pyvalue" where
  "FileAnalysisData_to_dict fa =
     (case categories_to_dict (file_categories fa) of
        Inl e \<Rightarrow> Inl e
      | Inr cats \<Rightarrow>
          Inr (PyDict
            [(''filename'', PyStr (filename fa)),
             (''source_language'', PyStr (source_language fa)),
             (''target_language'', PyStr (target_language fa)),
             (''file_path'', py_optional_str (file_path fa)),
             (''analysis_date'', py_optional_str (analysis_date fa)),
             (''cat_tool'', py_optional_str (cat_tool fa)),
             (''categories'', PyDict cats)]))"

subsection \<open>The Trados CSV parser (\<^verbatim>\<open>trados_csv_parser.py\<close>, \<^verbatim>\<open>base_parser.py\<close>)\<close>

text \<open>
  \<^verbatim>\<open>xs[i]\<close>: a negative index counts from the end. \<^verbatim>\<open>cell.strip(' "')\<close> strips the
  space and the double quote, the characters of code 32 and 34.
\<close>

definition py_index :: "'a list \<Rightarrow> int \<Rightarrow> py_error + 'a" where
  "py_index xs i =
     (if 0 \<le> i \<and> i < len xs then Inr (xs ! nat i)
      else if - len xs \<le> i \<and> i < 0 then Inr (xs ! nat (len xs + i))
      else Inl IndexError)"

definition safe_int_conversion :: "string list \<Rightarrow> int \<Rightarrow> py_error + int" where
  "safe_int_conversion row_data col_index =
     (if col_index < 0 \<or> col_index \<ge> len row_data then Inr 0
      else
        except_value_type_error
          (let v = strip (row_data ! nat col_index)
           in if v = [] then Inr 0
              else if contains ''.'' v
              then (case float_of_str v of Inl e \<Rightarrow> Inl e | Inr x \<Rightarrow> int_of_float x)
              else int_of_str v)
          0)"

definition safe_float_conversion :: "string list \<Rightarrow> int \<Rightarrow> py_error + pyfloat" where
  "safe_float_conversion row_data col_index =
     (if col_index < 0 \<or> col_index \<ge> len row_data then Inr (Finite 0)
      else
        except_value_type_error
          (let v = strip (row_data ! nat col_index)
           in if v = [] then Inr (Finite 0) else float_of_str v)
          (Finite 0))"

text \<open>\<^verbatim>\<open>category_mapping.get(field, -1)\<close>.\<close>

definition get_or_minus_1 :: "(string, int) dict \<Rightarrow> string \<Rightarrow> int" where
  "get_or_minus_1 m field = (case map_of m field of Some i \<Rightarrow> i | None \<Rightarrow> - 1)"

definition parse_category_data ::
    "string list \<Rightarrow> (string, int) dict \<Rightarrow> bool \<Rightarrow> py_error + MatchCategoryData" where
  "parse_category_data row_data category_mapping has_characters =
     (case safe_int_conversion row_data (get_or_minus_1 category_mapping ''segments'') of
        Inl e \<Rightarrow> Inl e
      | Inr segs \<Rightarrow>
     (case safe_int_conversion row_data (get_or_minus_1 category_mapping ''words'') of
        Inl e \<Rightarrow> Inl e
      | Inr wds \<Rightarrow>
     (case safe_int_conversion row_data (get_or_minus_1 category_mapping ''placeables'') of
        Inl e \<Rightarrow> Inl e
      | Inr pls \<Rightarrow>
     (case safe_float_conversion row_data (get_or_minus_1 category_mapping ''percent'') of
        Inl e \<Rightarrow> Inl e
      | Inr pct \<Rightarrow>
     (case (if has_characters
            then safe_int_conversion row_data (get_or_minus_1 category_mapping ''characters'')
            else Inr 0) of
        Inl e \<Rightarrow> Inl e
      | Inr chs \<Rightarrow>
          Inr (new_MatchCategoryData NO_MATCH' segs wds chs pls pct None None None))))))"

text \<open>
  \<^verbatim>\<open>parse_language_pair_from_filename\<close>: the four patterns in turn; the last part of the
  split is the candidate language pair.
\<close>

fun language_pair_by_patterns :: "string list \<Rightarrow> string \<Rightarrow> string \<times> string" where
  "language_pair_by_patterns [] fn = ([], [])"
| "language_pair_by_patterns (pattern # rest) fn =
     (if contains pattern fn then
        (let parts = split_str pattern fn in
         if length parts \<ge> 2 then
           (let lang_part = last parts in
            if contains ''>'' lang_part then
              (let langs = split_str ''>'' lang_part in
               if length langs = 2 then
                 (let source = lower (strip (langs ! 0));
                      target = lower (strip (langs ! 1))
                  in if 2 \<le> length source \<and> length source \<le> 5
                        \<and> 2 \<le> length target \<and> length target \<le> 5
                     then (source, target)
                     else language_pair_by_patterns rest fn)
               else language_pair_by_patterns rest fn)
            else language_pair_by_patterns rest fn)
         else language_pair_by_patterns rest fn)
      else language_pair_by_patterns rest fn)"

definition parse_language_pair_from_filename :: "string \<Rightarrow> string \<times> string" where
  "parse_language_pair_from_filename fn =
     language_pair_by_patterns ['' | '', ''_'', ''-'', '' ''] fn"

text \<open>The dictionary \<^verbatim>\<open>_extract_file_info\<close> returns, as a triple.\<close>

definition extract_file_info ::
    "string list \<Rightarrow> ColumnMapping \<Rightarrow> py_error + (string \<times> string \<times> string)" where
  "extract_file_info row_data mapping =
     (let file_col_index = (case map_of (fixed_columns mapping) ''File'' of
                              Some i \<Rightarrow> i | None \<Rightarrow> 0)
      in case (if file_col_index < len row_data
               then (case py_index row_data file_col_index of
                       Inl e \<Rightarrow> Inl e
                     | Inr cell \<Rightarrow> Inr (strip_chars [CHR 0x20, CHR 0x22] cell))
               else Inr ''unknown_file'') of
           Inl e \<Rightarrow> Inl e
         | Inr file_cell \<Rightarrow>
             (let (fn, src, tgt) =
                    (if contains '' | '' file_cell then
                       (let parts = split_str '' | '' file_cell;
                            fn = strip (parts ! 0)
                        in if length parts > 1 \<and> contains ''>'' (parts ! 1) then
                             (let lang_parts = split_str ''>'' (strip (parts ! 1))
                              in if length lang_parts = 2
                                 then (fn, strip (lang_parts ! 0), strip (lang_parts ! 1))
                                 else (fn, [], []))
                           else (fn, [], []))
                     else (file_cell, [], []))
              in if src = [] \<or> tgt = [] then
                   (let (fallback_source, fallback_target) = parse_language_pair_from_filename fn
                    in if fallback_source \<noteq> [] \<and> fallback_target \<noteq> []
                       then Inr (fn, fallback_source, fallback_target)
                       else Inr (fn, src, tgt))
                 else Inr (fn, src, tgt)))"

text \<open>The loop of \<^verbatim>\<open>_parse_data_rows\<close> over the mapped categories.\<close>

fun parse_categories ::
    "string list \<Rightarrow> bool \<Rightarrow> (MatchCategoryType, (string, int) dict) dict
      \<Rightarrow> FileAnalysisData \<Rightarrow> py_error + FileAnalysisData" where
  "parse_categories row_data has_characters [] fa = Inr fa"
| "parse_categories row_data has_characters ((category_type, category_mapping) # rest) fa =
     (case parse_category_data row_data category_mapping has_characters of
        Inl e \<Rightarrow> Inl e
      | Inr category_data \<Rightarrow>
          parse_categories row_data has_characters rest
            (set_category_data fa category_type category_data))"

text \<open>
  \<^verbatim>\<open>_parse_data_rows\<close>: \<open>Inr None\<close> is the return value \<^verbatim>\<open>None\<close>, \<open>Inl e\<close> an exception
  raised to \<^verbatim>\<open>parse\<close>. The row is cut into cells first, the mapping is validated against
  the number of cells, and only then anything is read from the cells.
\<close>

definition row_cells :: "string \<Rightarrow> string list" where
  "row_cells row = map (strip_chars [CHR 0x20, CHR 0x22]) (split_str '';'' row)"

definition extract_row ::
    "string list \<Rightarrow> ColumnMapping \<Rightarrow> py_error + FileAnalysisData option" where
  "extract_row row_data mapping =
     (case extract_file_info row_data mapping of
        Inl e \<Rightarrow> Inl e
      | Inr (fn, src, tgt) \<Rightarrow>
          (case parse_categories row_data (has_characters_column mapping)
                  (mapped_categories mapping)
                  (new_FileAnalysisData fn src tgt [] None None None) of
             Inl e \<Rightarrow> Inl e
           | Inr analysis_data \<Rightarrow>
               if \<not> is_valid analysis_data then Inr None else Inr (Some analysis_data)))"

definition parse_data_rows ::
    "string list \<Rightarrow> ColumnMapping \<Rightarrow> py_error + FileAnalysisData option" where
  "parse_data_rows data_rows mapping =
     (case data_rows of
        [] \<Rightarrow> Inr None
      | first_row # _ \<Rightarrow>
          (let row_data = row_cells first_row
           in if \<not> validate_mapping mapping (len row_data) then Inr None
              else extract_row row_data mapping))"

text \<open>
  \<^verbatim>\<open>parse\<close>, from the stripped lines of the file on: every exception inside is caught and
  gives \<^verbatim>\<open>None\<close>. The second argument is \<^verbatim>\<open>str(file_path)\<close>.
\<close>

definition parse :: "string list \<Rightarrow> string \<Rightarrow> FileAnalysisData option" where
  "parse lines path =
     (if length lines < 3 then None
      else case map_columns (take 2 lines) of
             Inl e \<Rightarrow> None
           | Inr mapping \<Rightarrow>
               (case parse_data_rows (drop 2 lines) mapping of
                  Inl e \<Rightarrow> None
                | Inr None \<Rightarrow> None
                | Inr (Some analysis_data) \<Rightarrow>
                    Some (analysis_data\<lparr>cat_tool := Some ''Trados'', file_path := Some path\<rparr>)))"

text \<open>The data row of \<^verbatim>\<open>scripts/create_test_data.py\<close> that belongs to the sample headers.\<close>

definition sample_row :: string where
  "sample_row = CHR 0x22 # ''ProjectA_Document.docx | en_us>de_de'' @ CHR 0x22 # '';0;5.2;5;25;130;0;2.5;10;50;260;0;5.0;15;75;390;0;7.5;20;100;520;0;10.0;25;125;650;0;12.5;30;150;780;0;15.0;35;175;910;0;17.5;40;200;1040;0;20.0;180;900;0;4680''"

subsection \<open>Decimal arithmetic\<close>

text \<open>
  The operations of \<^verbatim>\<open>Decimal\<close> in the default context, which the repository never
  changes: 28 significant digits, rounding half to even. A result is the exact one,
  rounded to the precision when its coefficient is longer. The limits of the exponent
  (\<open>\<plusminus> 999999\<close>) are not modelled.
\<close>

text \<open>The number of decimal digits of a coefficient, 0 for 0.\<close>

function ndigits :: "int \<Rightarrow> nat" where
  "ndigits c = (if c = 0 then 0 else Suc (ndigits (\<bar>c\<bar> div 10)))"
  by pat_completeness auto
termination
  by (relation "measure (\<lambda>c. nat \<bar>c\<bar>)") auto

declare ndigits.simps [simp del]

definition dec_prec :: nat where
  "dec_prec = 28"

text \<open>Rounding a result to the precision of the context.\<close>

definition dec_fix :: "decimal \<Rightarrow> decimal" where
  "dec_fix d =
     (let n = ndigits (coefficient d)
      in if n \<le> dec_prec then d
         else
           let k = n - dec_prec;
               c = round_half_even (of_int (coefficient d) / 10 ^ k)
           in if ndigits c > dec_prec
              then \<lparr>coefficient = c div 10, exponent = exponent d + int k + 1\<rparr>
              else \<lparr>coefficient = c, exponent = exponent d + int k\<rparr>)"


definition dec_mul :: "decimal \<Rightarrow> decimal \<Rightarrow> decimal" where
  "dec_mul a b =
     dec_fix \<lparr>coefficient = coefficient a * coefficient b, exponent = exponent a + exponent b\<rparr>"

definition dec_add :: "decimal \<Rightarrow> decimal \<Rightarrow> decimal" where
  "dec_add a b =
     (let e = min (exponent a) (exponent b)
      in dec_fix \<lparr>coefficient = coefficient a * 10 ^ nat (exponent a - e)
                               + coefficient b * 10 ^ nat (exponent b - e),
                  exponent = e\<rparr>)"




text \<open>
  \<^verbatim>\<open>d.quantize(Decimal('0.01'))\<close> with the exponent \<open>-2\<close> for \<open>t\<close>, \<^verbatim>\<open>Decimal('0.0001')\<close>
  with \<open>-4\<close>: the nearest multiple of \<open>10 ^ t\<close>, half to even (the rounding of the
  context), and \<^verbatim>\<open>InvalidOperation\<close> when its coefficient has more digits than the
  precision.
\<close>

definition quantize :: "int \<Rightarrow> decimal \<Rightarrow> py_error + decimal" where
  "quantize t d =
     (let c = round_half_even (of_int (coefficient d) * 10 powi (exponent d - t))
      in if ndigits c > dec_prec then Inl InvalidOperation
         else Inr \<lparr>coefficient = c, exponent = t\<rparr>)"



subsection \<open>Rate construction and cost (\<^verbatim>\<open>rate.py\<close>)\<close>









subsection \<open>The cost of a file (\<^verbatim>\<open>FileAnalysisData.calculate_total_cost\<close>)\<close>




subsection \<open>The cost breakdown (\<^verbatim>\<open>calculation_service.py\<close>)\<close>













text \<open>
  The word counts that \<^verbatim>\<open>calculate_project_cost\<close> prices, each with its rate: those above
  0 whose category has a rate. Likewise the categories \<^verbatim>\<open>_calculate_breakdown\<close> prices.
\<close>

definition priced_counts ::
    "(MatchCategoryType, Rate) dict \<Rightarrow> (MatchCategoryType, int) dict \<Rightarrow> (Rate \<times> int) list" where
  "priced_counts rates word_counts =
     concat (map (\<lambda>(cat, w). if w \<le> 0 then []
                               else case map_of rates cat of None \<Rightarrow> [] | Some r \<Rightarrow> [(r, w)])
               word_counts)"





section \<open>Rate resolution\<close>

lemma client_id_rate_of_client: "client_id (rate_of_client c) = c"
  by (simp add: rate_of_client_def)

lemma hd_filter_find:
  "filter P xs \<noteq> [] \<Longrightarrow> Some (hd (filter P xs)) = find P xs"
  by (induction xs) auto

lemma find_None_filter: "filter P xs = [] \<Longrightarrow> find P xs = None"
  by (induction xs) (auto split: if_splits)

lemma resolve_rate_hierarchy_find:
  "resolve_rate_hierarchy rates tid lpid mcid cid =
     (let applicable = applicable_rates rates tid lpid mcid in
      case (if truthy_id cid then find (\<lambda>rate. client_id rate = cid) applicable else None) of
        Some r \<Rightarrow> Some r
      | None \<Rightarrow> find (\<lambda>rate. client_id rate = None) applicable)"
proof (cases "filter (\<lambda>rate. client_id rate = cid) (applicable_rates rates tid lpid mcid) = []")
  case True
  then show ?thesis
    by (cases "filter (\<lambda>rate. client_id rate = None) (applicable_rates rates tid lpid mcid) = []")
       (auto simp: resolve_rate_hierarchy_def Let_def find_None_filter hd_filter_find)
next
  case False
  then have ne: "applicable_rates rates tid lpid mcid \<noteq> []" by auto
  from False show ?thesis
    by (cases "filter (\<lambda>rate. client_id rate = None) (applicable_rates rates tid lpid mcid) = []")
       (auto simp: resolve_rate_hierarchy_def Let_def find_None_filter
          hd_filter_find [symmetric] ne)
qed

lemma find_Some_props:
  "find P xs = Some r \<Longrightarrow> r \<in> set xs \<and> P r"
  by (induction xs) (auto split: if_splits)

lemma find_exists: "\<exists>x\<in>set xs. P x \<Longrightarrow> \<exists>r. find P xs = Some r"
  by (induction xs) auto

lemma resolve_rate_hierarchy_applicable:
  "((\<exists>c. cid = Some c \<and> c \<noteq> 0)
      \<and> (\<exists>r \<in> set (applicable_rates rates tid lpid mcid). client_id r = cid)
    \<longrightarrow> (\<exists>r. resolve_rate_hierarchy rates tid lpid mcid cid = Some r
            \<and> r \<in> set (applicable_rates rates tid lpid mcid) \<and> client_id r = cid
            \<and> find (\<lambda>rate. client_id rate = cid) (applicable_rates rates tid lpid mcid) = Some r))
   \<and> (\<not> ((\<exists>c. cid = Some c \<and> c \<noteq> 0)
          \<and> (\<exists>r \<in> set (applicable_rates rates tid lpid mcid). client_id r = cid))
      \<and> (\<exists>r \<in> set (applicable_rates rates tid lpid mcid). client_id r = None)
    \<longrightarrow> (\<exists>r. resolve_rate_hierarchy rates tid lpid mcid cid = Some r
            \<and> r \<in> set (applicable_rates rates tid lpid mcid) \<and> client_id r = None
            \<and> find (\<lambda>rate. client_id rate = None) (applicable_rates rates tid lpid mcid) = Some r))
   \<and> (\<not> ((\<exists>c. cid = Some c \<and> c \<noteq> 0)
          \<and> (\<exists>r \<in> set (applicable_rates rates tid lpid mcid). client_id r = cid))
      \<and> \<not> (\<exists>r \<in> set (applicable_rates rates tid lpid mcid). client_id r = None)
    \<longrightarrow> resolve_rate_hierarchy rates tid lpid mcid cid = None)"
proof -
  let ?A = "applicable_rates rates tid lpid mcid"
  have truthy: "truthy_id cid \<longleftrightarrow> (\<exists>c. cid = Some c \<and> c \<noteq> 0)"
    by (cases cid) (auto simp: truthy_id_def)
  have c1: "\<exists>r. resolve_rate_hierarchy rates tid lpid mcid cid = Some r \<and> r \<in> set ?A
      \<and> client_id r = cid \<and> find (\<lambda>rate. client_id rate = cid) ?A = Some r"
    if t: "\<exists>c. cid = Some c \<and> c \<noteq> 0" and ex: "\<exists>r \<in> set ?A. client_id r = cid"
  proof -
    from find_exists [of ?A "\<lambda>rate. client_id rate = cid"] ex
    obtain r where f: "find (\<lambda>rate. client_id rate = cid) ?A = Some r" by blast
    from find_Some_props [OF f] have "r \<in> set ?A" "client_id r = cid" by auto
    moreover have "resolve_rate_hierarchy rates tid lpid mcid cid = Some r"
      using t f truthy by (simp add: resolve_rate_hierarchy_find)
    ultimately show ?thesis using f by blast
  qed
  have nofind: "(if truthy_id cid then find (\<lambda>rate. client_id rate = cid) ?A else None) = None"
    if n: "\<not> ((\<exists>c. cid = Some c \<and> c \<noteq> 0) \<and> (\<exists>r \<in> set ?A. client_id r = cid))"
  proof (cases "truthy_id cid")
    case True
    with n truthy have "\<not> (\<exists>r \<in> set ?A. client_id r = cid)" by blast
    then have "filter (\<lambda>rate. client_id rate = cid) ?A = []"
      by (auto simp: filter_empty_conv)
    then show ?thesis by (simp add: find_None_filter)
  next
    case False
    then show ?thesis by simp
  qed
  have c2: "\<exists>r. resolve_rate_hierarchy rates tid lpid mcid cid = Some r \<and> r \<in> set ?A
      \<and> client_id r = None \<and> find (\<lambda>rate. client_id rate = None) ?A = Some r"
    if n: "\<not> ((\<exists>c. cid = Some c \<and> c \<noteq> 0) \<and> (\<exists>r \<in> set ?A. client_id r = cid))"
      and ex: "\<exists>r \<in> set ?A. client_id r = None"
  proof -
    from find_exists [of ?A "\<lambda>rate. client_id rate = None"] ex
    obtain r where f: "find (\<lambda>rate. client_id rate = None) ?A = Some r" by blast
    from find_Some_props [OF f] have "r \<in> set ?A" "client_id r = None" by auto
    moreover have "resolve_rate_hierarchy rates tid lpid mcid cid = Some r"
      using nofind [OF n] f by (simp add: resolve_rate_hierarchy_find)
    ultimately show ?thesis using f by blast
  qed
  have c3: "resolve_rate_hierarchy rates tid lpid mcid cid = None"
    if n: "\<not> ((\<exists>c. cid = Some c \<and> c \<noteq> 0) \<and> (\<exists>r \<in> set ?A. client_id r = cid))"
      and nex: "\<not> (\<exists>r \<in> set ?A. client_id r = None)"
  proof -
    from nex have "filter (\<lambda>rate. client_id rate = None) ?A = []"
      by (auto simp: filter_empty_conv)
    then have "find (\<lambda>rate. client_id rate = None) ?A = None"
      by (rule find_None_filter)
    then show ?thesis using nofind [OF n] by (simp add: resolve_rate_hierarchy_find)
  qed
  show ?thesis
  proof (intro conjI impI)
    assume "(\<exists>c. cid = Some c \<and> c \<noteq> 0) \<and> (\<exists>r \<in> set ?A. client_id r = cid)"
    then show "\<exists>r. resolve_rate_hierarchy rates tid lpid mcid cid = Some r \<and> r \<in> set ?A
      \<and> client_id r = cid \<and> find (\<lambda>rate. client_id rate = cid) ?A = Some r"
      using c1 by blast
  next
    assume "\<not> ((\<exists>c. cid = Some c \<and> c \<noteq> 0) \<and> (\<exists>r \<in> set ?A. client_id r = cid))
      \<and> (\<exists>r \<in> set ?A. client_id r = None)"
    then show "\<exists>r. resolve_rate_hierarchy rates tid lpid mcid cid = Some r \<and> r \<in> set ?A
      \<and> client_id r = None \<and> find (\<lambda>rate. client_id rate = None) ?A = Some r"
      using c2 by blast
  next
    assume "\<not> ((\<exists>c. cid = Some c \<and> c \<noteq> 0) \<and> (\<exists>r \<in> set ?A. client_id r = cid))
      \<and> \<not> (\<exists>r \<in> set ?A. client_id r = None)"
    then show "resolve_rate_hierarchy rates tid lpid mcid cid = None"
      using c3 by blast
  qed
qed

lemma find_filter: "find P (filter Q xs) = find (\<lambda>x. Q x \<and> P x) xs"
  by (induction xs) auto

text \<open>
  C1, as the code has it. Only rates whose translator, language pair and category all equal
  the query are ever considered. When a client id other than 0 is passed and such a rate
  has that client id, the first one in the list is returned; otherwise, when such a rate
  has no client id, the first such general rate is returned, whatever client id was
  passed; otherwise the result is \<open>None\<close>. A rate of another translator, language pair or
  category is never returned.
\<close>

theorem resolve_rate_hierarchy_priority:
  "((\<exists>c. cid = Some c \<and> c \<noteq> 0)
      \<and> (\<exists>r \<in> set rates. translator_id r = tid \<and> language_pair_id r = lpid
             \<and> match_category_id r = mcid \<and> client_id r = cid)
    \<longrightarrow> (\<exists>r. resolve_rate_hierarchy rates tid lpid mcid cid = Some r
            \<and> r \<in> set rates \<and> translator_id r = tid \<and> language_pair_id r = lpid
            \<and> match_category_id r = mcid \<and> client_id r = cid
            \<and> find (\<lambda>rate. translator_id rate = tid \<and> language_pair_id rate = lpid
                        \<and> match_category_id rate = mcid \<and> client_id rate = cid) rates
                = Some r))
   \<and> (\<not> ((\<exists>c. cid = Some c \<and> c \<noteq> 0)
          \<and> (\<exists>r \<in> set rates. translator_id r = tid \<and> language_pair_id r = lpid
                 \<and> match_category_id r = mcid \<and> client_id r = cid))
      \<and> (\<exists>r \<in> set rates. translator_id r = tid \<and> language_pair_id r = lpid
             \<and> match_category_id r = mcid \<and> client_id r = None)
    \<longrightarrow> (\<exists>r. resolve_rate_hierarchy rates tid lpid mcid cid = Some r
            \<and> r \<in> set rates \<and> translator_id r = tid \<and> language_pair_id r = lpid
            \<and> match_category_id r = mcid \<and> client_id r = None
            \<and> find (\<lambda>rate. translator_id rate = tid \<and> language_pair_id rate = lpid
                        \<and> match_category_id rate = mcid \<and> client_id rate = None) rates
                = Some r))
   \<and> (\<not> ((\<exists>c. cid = Some c \<and> c \<noteq> 0)
          \<and> (\<exists>r \<in> set rates. translator_id r = tid \<and> language_pair_id r = lpid
                 \<and> match_category_id r = mcid \<and> client_id r = cid))
      \<and> \<not> (\<exists>r \<in> set rates. translator_id r = tid \<and> language_pair_id r = lpid
               \<and> match_category_id r = mcid \<and> client_id r = None)
    \<longrightarrow> resolve_rate_hierarchy rates tid lpid mcid cid = None)
   \<and> (\<forall>r. resolve_rate_hierarchy rates tid lpid mcid cid = Some r
        \<longrightarrow> r \<in> set rates \<and> translator_id r = tid \<and> language_pair_id r = lpid
            \<and> match_category_id r = mcid)"
proof -
  let ?A = "applicable_rates rates tid lpid mcid"
  let ?M = "\<lambda>r. translator_id r = tid \<and> language_pair_id r = lpid \<and> match_category_id r = mcid"
  have ex: "(\<exists>r \<in> set ?A. client_id r = c) \<longleftrightarrow>
      (\<exists>r \<in> set rates. translator_id r = tid \<and> language_pair_id r = lpid
         \<and> match_category_id r = mcid \<and> client_id r = c)" for c
    by (auto simp: applicable_rates_def)
  have mem: "r \<in> set ?A \<longleftrightarrow> r \<in> set rates \<and> translator_id r = tid
      \<and> language_pair_id r = lpid \<and> match_category_id r = mcid" for r
    by (auto simp: applicable_rates_def)
  have fnd: "find (\<lambda>rate. client_id rate = c) ?A
      = find (\<lambda>rate. translator_id rate = tid \<and> language_pair_id rate = lpid
                  \<and> match_category_id rate = mcid \<and> client_id rate = c) rates" for c
    by (simp add: applicable_rates_def find_filter conj_assoc)
  note h = resolve_rate_hierarchy_applicable [of cid rates tid lpid mcid, unfolded ex mem fnd]
  have res: "r \<in> set rates \<and> translator_id r = tid \<and> language_pair_id r = lpid
      \<and> match_category_id r = mcid"
    if "resolve_rate_hierarchy rates tid lpid mcid cid = Some r" for r
  proof -
    from that have "r \<in> set ?A"
      by (auto simp: resolve_rate_hierarchy_find Let_def split: option.splits if_splits
            dest: find_Some_props)
    then show ?thesis by (simp only: mem)
  qed
  from h res show ?thesis by blast
qed

theorem resolve_rate_hierarchy_priority_witness:
  "resolve_rate_hierarchy
       [rate_of_triple 2 1 1 (Some 7), rate_of_client None, rate_of_client (Some 7)]
       1 1 1 (Some 7)
     = Some (rate_of_client (Some 7))
   \<and> resolve_rate_hierarchy
       [rate_of_triple 1 2 1 None, rate_of_client (Some 7), rate_of_client None]
       1 1 1 (Some 8)
     = Some (rate_of_client None)
   \<and> resolve_rate_hierarchy [rate_of_triple 1 1 2 None, rate_of_client (Some 7)] 1 1 1 (Some 8)
     = None
   \<and> resolve_rate_hierarchy [rate_of_client None, rate_of_client (Some 7)] 2 2 2 (Some 7)
     = None"
proof -
  have a: "resolve_rate_hierarchy
       [rate_of_triple 2 1 1 (Some 7), rate_of_client None, rate_of_client (Some 7)]
       1 1 1 (Some 7) = Some (rate_of_client (Some 7))"
    using resolve_rate_hierarchy_priority
            [of "Some 7"
               "[rate_of_triple 2 1 1 (Some 7), rate_of_client None, rate_of_client (Some 7)]"
               1 1 1]
    by (simp add: rate_of_client_def rate_of_triple_def)
  have b: "resolve_rate_hierarchy
       [rate_of_triple 1 2 1 None, rate_of_client (Some 7), rate_of_client None]
       1 1 1 (Some 8) = Some (rate_of_client None)"
    using resolve_rate_hierarchy_priority
            [of "Some 8"
               "[rate_of_triple 1 2 1 None, rate_of_client (Some 7), rate_of_client None]"
               1 1 1]
    by (simp add: rate_of_client_def rate_of_triple_def)
  have c: "resolve_rate_hierarchy [rate_of_triple 1 1 2 None, rate_of_client (Some 7)]
       1 1 1 (Some 8) = None"
    using resolve_rate_hierarchy_priority
            [of "Some 8" "[rate_of_triple 1 1 2 None, rate_of_client (Some 7)]" 1 1 1]
    by (simp add: rate_of_client_def rate_of_triple_def)
  have d: "resolve_rate_hierarchy [rate_of_client None, rate_of_client (Some 7)]
       2 2 2 (Some 7) = None"
    using resolve_rate_hierarchy_priority
            [of "Some 7" "[rate_of_client None, rate_of_client (Some 7)]" 2 2 2]
    by (simp add: rate_of_client_def)
  from a b c d show ?thesis by simp
qed

text \<open>
  C1 as stated fails for the client id 0: a rate of the queried translator, language pair
  and category with client id 0 is in the list and 0 is the client id passed, yet nothing
  is returned.
\<close>

theorem resolve_rate_hierarchy_client_zero_counterexample:
  "rate_of_client (Some 0) \<in> set (applicable_rates [rate_of_client (Some 0)] 1 1 1)
   \<and> translator_id (rate_of_client (Some 0)) = 1
   \<and> language_pair_id (rate_of_client (Some 0)) = 1
   \<and> match_category_id (rate_of_client (Some 0)) = 1
   \<and> client_id (rate_of_client (Some 0)) = Some 0
   \<and> resolve_rate_hierarchy [rate_of_client (Some 0)] 1 1 1 (Some 0) = None"
  by (simp add: resolve_rate_hierarchy_def applicable_rates_def rate_of_client_def
        truthy_id_def)

text \<open>
  C10. The client id 0 resolves as no client id at all: the result is the first general rate
  among the applicable ones, or \<open>None\<close>, and so never a rate whose client id is 0.
\<close>

theorem resolve_rate_hierarchy_zero_is_None:
  "resolve_rate_hierarchy rates tid lpid mcid (Some 0)
     = resolve_rate_hierarchy rates tid lpid mcid None
   \<and> resolve_rate_hierarchy rates tid lpid mcid (Some 0)
     = find (\<lambda>rate. client_id rate = None) (applicable_rates rates tid lpid mcid)
   \<and> map_option client_id (resolve_rate_hierarchy rates tid lpid mcid (Some 0))
     \<noteq> Some (Some 0)"
proof -
  let ?g = "find (\<lambda>rate. client_id rate = None) (applicable_rates rates tid lpid mcid)"
  have z: "resolve_rate_hierarchy rates tid lpid mcid (Some 0) = ?g"
    by (simp add: resolve_rate_hierarchy_find truthy_id_def)
  have n: "resolve_rate_hierarchy rates tid lpid mcid None = ?g"
    by (simp add: resolve_rate_hierarchy_find truthy_id_def)
  have "map_option client_id ?g \<noteq> Some (Some 0)"
  proof (cases ?g)
    case None
    then show ?thesis by simp
  next
    case (Some r)
    from find_Some_props [OF Some] have "client_id r = None" by simp
    with Some show ?thesis by simp
  qed
  with z n show ?thesis by simp
qed

theorem resolve_rate_hierarchy_zero_is_None_witness:
  "resolve_rate_hierarchy [rate_of_client (Some 0), rate_of_client None] 1 1 1 (Some 0)
     = Some (rate_of_client None)
   \<and> resolve_rate_hierarchy [rate_of_client (Some 0), rate_of_client None] 1 1 1 None
     = Some (rate_of_client None)"
proof -
  let ?rs = "[rate_of_client (Some 0), rate_of_client None]"
  have f: "find (\<lambda>rate. client_id rate = None) (applicable_rates ?rs 1 1 1)
      = Some (rate_of_client None)"
    by (simp add: applicable_rates_def rate_of_client_def)
  have e1: "resolve_rate_hierarchy ?rs 1 1 1 (Some 0) = resolve_rate_hierarchy ?rs 1 1 1 None"
    using resolve_rate_hierarchy_zero_is_None [of ?rs 1 1 1] by blast
  have e2: "resolve_rate_hierarchy ?rs 1 1 1 (Some 0)
      = find (\<lambda>rate. client_id rate = None) (applicable_rates ?rs 1 1 1)"
    using resolve_rate_hierarchy_zero_is_None [of ?rs 1 1 1] by blast
  from e1 e2 f show ?thesis by metis
qed

section \<open>Format detection and column mapping\<close>

lemma split_str_not_Nil: "split_str sep s \<noteq> []"
  by (induction sep s rule: split_str.induct) (auto split: list.splits)

lemma length_split_str_char: "length (split_str [c] s) = count_list s c + 1"
proof (induction s)
  case Nil
  then show ?case by simp
next
  case (Cons x xs)
  then show ?case
    using split_str_not_Nil [of "[c]" xs]
    by (cases "split_str [c] xs") auto
qed

lemma contains_sublist: "contains sub s = sublist sub s"
  by (induction s) (auto simp: sublist_Cons_right)

lemma contains_dropWhile:
  assumes "sub \<noteq> []" "\<not> P (hd sub)"
  shows "contains sub (dropWhile P s) = contains sub s"
  using assms by (induction s) (auto simp: prefix_Cons neq_Nil_conv)

lemma contains_rev: "contains (rev sub) (rev s) = contains sub s"
  by (simp add: contains_sublist sublist_rev)

lemma contains_strip:
  assumes "sub \<noteq> []" "\<not> py_isspace (hd sub)" "\<not> py_isspace (last sub)"
  shows "contains sub (strip s) = contains sub s"
proof -
  have "contains sub (strip s) = contains (rev sub) (dropWhile py_isspace (rev (dropWhile py_isspace s)))"
    unfolding strip_def using contains_rev [of "rev sub"] by simp
  also have "\<dots> = contains (rev sub) (rev (dropWhile py_isspace s))"
    using assms by (intro contains_dropWhile) (auto simp: hd_rev)
  also have "\<dots> = contains sub (dropWhile py_isspace s)" by (rule contains_rev)
  also have "\<dots> = contains sub s" using assms by (intro contains_dropWhile) auto
  finally show ?thesis .
qed

lemma contains_Characters_strip:
  "contains ''Characters'' (strip s) = contains ''Characters'' s"
  by (rule contains_strip) (simp_all add: py_isspace_def)

lemma detect_format_iff:
  "detect_format [l1, l2] =
     (if 45 \<le> count_list l2 (CHR '';'') + 1
         \<or> 6 \<le> length (filter (contains ''Characters'') (split_str '';'' l2))
      then ''with_characters'' else ''without_characters'')"
  by (simp add: detect_format_def Let_def length_split_str_char filter_map o_def
        contains_Characters_strip)

lemma in_set_update:
  "p \<in> set (AList.update k v al) \<Longrightarrow> p = (k, v) \<or> p \<in> set al"
  by (induction al) (auto split: if_splits)

lemma map_category_fields_keys:
  "set (dict_keys (snd (map_category_fields fs n c m))) \<subseteq> set fs \<union> set (dict_keys m)"
proof (induction fs arbitrary: c m)
  case Nil
  then show ?case by simp
next
  case (Cons f fs)
  have "set (dict_keys (AList.update f c m)) = insert f (set (dict_keys m))"
    using dom_update [of f c m] by (simp add: dict_keys_def)
  with Cons [of "c + 1" "AList.update f c m"] Cons [of c m] show ?case
    by auto
qed

lemma map_category_fields_enough:
  "c + fields_per_category fmt \<le> n \<Longrightarrow>
     fst (map_category_fields (category_fields fmt) n c []) = c + fields_per_category fmt
     \<and> dict_keys (snd (map_category_fields (category_fields fmt) n c [])) = category_fields fmt"
  by (cases "fmt = ''with_characters''")
     (simp_all add: category_fields_def fields_per_category_def dict_keys_def)

lemma map_category_columns_keys:
  "\<forall>(c, m) \<in> set cats. set (dict_keys m) \<subseteq> set (category_fields fmt) \<Longrightarrow>
   \<forall>(c, m) \<in> set (snd (map_category_columns fmt names n col_index cats)).
      set (dict_keys m) \<subseteq> set (category_fields fmt)"
proof (induction names arbitrary: col_index cats)
  case Nil
  then show ?case by simp
next
  case (Cons name names)
  show ?case
  proof (cases "map_category_name_to_type name")
    case None
    with Cons show ?thesis by simp
  next
    case (Some ct)
    obtain c' cm where f: "map_category_fields (category_fields fmt) n col_index [] = (c', cm)"
      by (cases "map_category_fields (category_fields fmt) n col_index []")
    have "set (dict_keys cm) \<subseteq> set (category_fields fmt)"
      using map_category_fields_keys [of "category_fields fmt" n col_index "[]"] f
      by (simp add: dict_keys_def)
    with Cons.prems have "\<forall>(c, m) \<in> set (AList.update ct cm cats).
        set (dict_keys m) \<subseteq> set (category_fields fmt)"
      by (auto dest!: in_set_update)
    from Cons.IH [OF this] Some f show ?thesis by simp
  qed
qed

lemma fields_per_category_nonneg: "0 \<le> fields_per_category fmt"
  by (simp add: fields_per_category_def)

lemma map_category_columns_full:
  "col_index + fields_per_category fmt * len names \<le> n \<Longrightarrow>
   \<forall>(c, m) \<in> set cats. dict_keys m = category_fields fmt \<Longrightarrow>
   \<forall>(c, m) \<in> set (snd (map_category_columns fmt names n col_index cats)).
      dict_keys m = category_fields fmt"
proof (induction names arbitrary: col_index cats)
  case Nil
  then show ?case by simp
next
  case (Cons name names)
  from Cons.prems(1)
  have rest: "(col_index + fields_per_category fmt) + fields_per_category fmt * len names \<le> n"
    by (simp add: algebra_simps)
  have here: "col_index + fields_per_category fmt \<le> n"
  proof -
    have "0 \<le> fields_per_category fmt * len names"
      using fields_per_category_nonneg by simp
    with rest show ?thesis by linarith
  qed
  show ?case
  proof (cases "map_category_name_to_type name")
    case None
    with Cons.IH [OF rest Cons.prems(2)] show ?thesis by simp
  next
    case (Some ct)
    obtain c' cm where f: "map_category_fields (category_fields fmt) n col_index [] = (c', cm)"
      by (cases "map_category_fields (category_fields fmt) n col_index []")
    from map_category_fields_enough [OF here] f
    have c': "c' = col_index + fields_per_category fmt" and cm: "dict_keys cm = category_fields fmt"
      by simp_all
    from Cons.prems(2) cm have "\<forall>(c, m) \<in> set (AList.update ct cm cats).
        dict_keys m = category_fields fmt"
      by (auto dest!: in_set_update)
    from Cons.IH [OF rest [folded c'] this] Some f show ?thesis by simp
  qed
qed

lemma mapped_categories_create:
  "mapped_categories (create_column_mapping fmt names headers)
     = snd (map_category_columns fmt names (len headers) 3 [])"
  by (simp add: create_column_mapping_def Let_def split: prod.splits)

lemma format_type_create: "format_type (create_column_mapping fmt names headers) = fmt"
  by (simp add: create_column_mapping_def Let_def split: prod.splits)

text \<open>
  C5, as the code has it. For every pair of header lines the format is \<open>with_characters\<close>
  exactly when the second line has at least 45 columns (one more than its semicolons) or at
  least 6 of its columns contain \<open>Characters\<close>, and \<open>without_characters\<close> otherwise. In the
  mapping built from the pair, no category of a \<open>without_characters\<close> mapping records a
  characters column; and when the second line has the three fixed columns and a full block
  of columns for every category name of the first line, every mapped category records
  exactly the five fields (with characters) or the four fields (without) of its format.
\<close>

theorem detect_format_and_mapping_fields:
  assumes "map_columns [l1, l2] = Inr mapping"
  shows "detect_format [l1, l2] =
           (if 45 \<le> count_list l2 (CHR '';'') + 1
               \<or> 6 \<le> length (filter (contains ''Characters'') (split_str '';'' l2))
            then ''with_characters'' else ''without_characters'')
    \<and> format_type mapping = detect_format [l1, l2]
    \<and> (format_type mapping = ''with_characters''
          \<and> 3 + 5 * len (extract_categories_from_header l1) \<le> len (split_str '';'' l2)
        \<longrightarrow> (\<forall>(c, m) \<in> set (mapped_categories mapping).
               dict_keys m = [''segments'', ''words'', ''characters'', ''placeables'', ''percent'']))
    \<and> (format_type mapping = ''without_characters''
        \<longrightarrow> (\<forall>(c, m) \<in> set (mapped_categories mapping). ''characters'' \<notin> set (dict_keys m))
            \<and> (3 + 4 * len (extract_categories_from_header l1) \<le> len (split_str '';'' l2)
               \<longrightarrow> (\<forall>(c, m) \<in> set (mapped_categories mapping).
                      dict_keys m = [''segments'', ''words'', ''placeables'', ''percent''])))"
proof -
  let ?fmt = "detect_format [l1, l2]"
  let ?names = "extract_categories_from_header l1"
  let ?cols = "map strip (split_str '';'' l2)"
  from assms have m: "mapping = create_column_mapping ?fmt ?names ?cols"
    by (simp add: map_columns_def)
  have cats: "mapped_categories mapping = snd (map_category_columns ?fmt ?names (len ?cols) 3 [])"
    by (simp add: m mapped_categories_create)
  have fmt: "format_type mapping = ?fmt"
    by (simp add: m format_type_create)
  have full: "\<forall>(c, m) \<in> set (mapped_categories mapping). dict_keys m = category_fields ?fmt"
    if "3 + fields_per_category ?fmt * len ?names \<le> len (split_str '';'' l2)"
    unfolding cats using that by (intro map_category_columns_full) simp_all
  have keys: "\<forall>(c, m) \<in> set (mapped_categories mapping).
      set (dict_keys m) \<subseteq> set (category_fields ?fmt)"
    unfolding cats by (intro map_category_columns_keys) simp
  have w: "\<forall>(c, m) \<in> set (mapped_categories mapping).
      dict_keys m = [''segments'', ''words'', ''characters'', ''placeables'', ''percent'']"
    if "format_type mapping = ''with_characters''"
      "3 + 5 * len ?names \<le> len (split_str '';'' l2)"
    using full that fmt by (simp add: fields_per_category_def category_fields_def)
  have wo1: "\<forall>(c, m) \<in> set (mapped_categories mapping). ''characters'' \<notin> set (dict_keys m)"
    if "format_type mapping = ''without_characters''"
    using keys that fmt by (auto simp: category_fields_def)
  have wo2: "\<forall>(c, m) \<in> set (mapped_categories mapping).
      dict_keys m = [''segments'', ''words'', ''placeables'', ''percent'']"
    if "format_type mapping = ''without_characters''"
      "3 + 4 * len ?names \<le> len (split_str '';'' l2)"
    using full that fmt by (simp add: fields_per_category_def category_fields_def)
  from detect_format_iff [of l1 l2] fmt w wo1 wo2 show ?thesis
    by blast
qed

theorem detect_format_and_mapping_fields_witness:
  "(case map_columns [sample_header_1, sample_header_2] of
      Inl e \<Rightarrow> False
    | Inr mapping \<Rightarrow>
        format_type mapping = ''with_characters''
        \<and> 3 + 5 * len (extract_categories_from_header sample_header_1)
            \<le> len (split_str '';'' sample_header_2)
        \<and> list_all (\<lambda>(c, m). dict_keys m
              = [''segments'', ''words'', ''characters'', ''placeables'', ''percent''])
            (mapped_categories mapping))"
proof -
  obtain mapping where m: "map_columns [sample_header_1, sample_header_2] = Inr mapping"
    by (simp add: map_columns_def)
  have d: "detect_format [sample_header_1, sample_header_2] = ''with_characters''"
    by code_simp
  have e: "3 + 5 * len (extract_categories_from_header sample_header_1)
            \<le> len (split_str '';'' sample_header_2)"
    by code_simp
  from detect_format_and_mapping_fields [OF m] d e
  have "format_type mapping = ''with_characters''"
    and "\<forall>(c, m) \<in> set (mapped_categories mapping).
      dict_keys m = [''segments'', ''words'', ''characters'', ''placeables'', ''percent'']"
    by simp_all
  with m e show ?thesis by (simp add: list_all_iff)
qed

lemma map_columns_short: "map_columns [short_header_1, short_header_2] = Inr short_mapping"
  unfolding short_mapping_def by code_simp


text \<open>
  C5 as stated fails when the columns run out: the pair below is classified
  \<open>with_characters\<close> (6 columns contain \<open>Characters\<close>), and the category \<open>No Match\<close> is
  mapped with its segments column only, so it records no characters column.
\<close>

theorem mapped_category_without_characters_counterexample:
  "detect_format [short_header_1, short_header_2] = ''with_characters''
   \<and> map_columns [short_header_1, short_header_2] = Inr short_mapping
   \<and> format_type short_mapping = ''with_characters''
   \<and> map_of (mapped_categories short_mapping) NO_MATCH' = Some [(''segments'', 8)]
   \<and> get_category_column short_mapping NO_MATCH' ''characters'' = None"
proof -
  have "detect_format [short_header_1, short_header_2] = ''with_characters''"
    by code_simp
  with map_columns_short show ?thesis
    by (simp add: short_mapping_def get_category_column_def)
qed

section \<open>Rounding to binary64\<close>

lemma round_half_even_of_int: "round_half_even (of_int n) = n"
  by (simp add: round_half_even_def)


lemma round_half_even_upper: "of_int (round_half_even x) \<le> x + 1 / 2"
  unfolding round_half_even_def Let_def
  by (auto simp: field_simps) linarith+

lemma round_half_even_mono:
  assumes "x \<le> y"
  shows "round_half_even x \<le> round_half_even y"
proof (cases "\<lfloor>x\<rfloor> = \<lfloor>y\<rfloor>")
  case True
  with assms show ?thesis
    unfolding round_half_even_def Let_def by auto
next
  case False
  with assms floor_mono [of x y] have "\<lfloor>x\<rfloor> + 1 \<le> \<lfloor>y\<rfloor>" by linarith
  moreover have "round_half_even x \<le> \<lfloor>x\<rfloor> + 1"
    unfolding round_half_even_def Let_def by auto
  moreover have "\<lfloor>y\<rfloor> \<le> round_half_even y"
    unfolding round_half_even_def Let_def by auto
  ultimately show ?thesis by linarith
qed

lemma ilog2_bounds:
  assumes "0 < x"
  shows "2 powi (ilog2 x) \<le> x \<and> x < 2 powi (ilog2 x + 1)"
proof -
  obtain a b where q: "quotient_of x = (a, b)" by (cases "quotient_of x")
  from quotient_of_denom_pos [OF q] have b: "0 < b" .
  from quotient_of_div [OF q] have x: "x = of_int a / of_int b" .
  from assms x b have a: "0 < a" by (simp add: zero_less_divide_iff)
  show ?thesis
  proof (cases "b \<le> a")
    case True
    define m where "m = a div b"
    have m1: "1 \<le> m" unfolding m_def using True b
      using int_one_le_iff_zero_less pos_imp_zdiv_pos_iff by presburger
    then have mpos: "0 < m" by simp
    have fl: "\<lfloor>x\<rfloor> = m" unfolding m_def x by (rule floor_divide_of_int_eq)
    have e: "ilog2 x = bitlen m - 1" using True q by (simp add: ilog2_def m_def)
    from bitlen_bounds [OF mpos]
    have lo: "2 ^ nat (bitlen m - 1) \<le> m" and hi: "m < 2 ^ nat (bitlen m)" by auto
    have bl: "1 \<le> bitlen m" using mpos bitlen_eq_zero_iff [of m] bitlen_nonneg [of m] by linarith
    have p1: "(2::rat) powi (ilog2 x) = of_int (2 ^ nat (bitlen m - 1))"
      using bl by (simp add: e power_int_nonneg_exp)
    have p2: "(2::rat) powi (ilog2 x + 1) = of_int (2 ^ nat (bitlen m))"
      using bl by (simp add: e power_int_nonneg_exp)
    have "of_int m \<le> x" using fl by (metis of_int_floor_le)
    with lo have c1: "2 powi (ilog2 x) \<le> x"
      unfolding p1 by (meson of_int_le_iff order_trans)
    have "x < of_int (m + 1)" using fl by (metis floor_less_iff less_add_one)
    moreover from hi have "m + 1 \<le> 2 ^ nat (bitlen m)" by simp
    then have "(of_int (m + 1) :: rat) \<le> of_int (2 ^ nat (bitlen m))"
      by (simp only: of_int_le_iff)
    ultimately have c2: "x < 2 powi (ilog2 x + 1)" unfolding p2 by linarith
    from c1 c2 show ?thesis by simp
  next
    case False
    then have ab: "a < b" by simp
    define m where "m = (b - 1) div a"
    define k where "k = nat (bitlen m)"
    have m1: "1 \<le> m" unfolding m_def using ab a
      using int_one_le_iff_zero_less pos_imp_zdiv_pos_iff zle_diff1_eq by blast
    then have mpos: "0 < m" by simp
    have e: "ilog2 x = - bitlen m" using False q by (simp add: ilog2_def m_def)
    from bitlen_bounds [OF mpos]
    have lo: "2 ^ nat (bitlen m - 1) \<le> m" and hi: "m < 2 ^ k" by (auto simp: k_def)
    have bl: "1 \<le> bitlen m" using mpos bitlen_eq_zero_iff [of m] bitlen_nonneg [of m] by linarith
    have k1: "1 \<le> k" and kb: "bitlen m = int k" using bl by (simp_all add: k_def)
    have lo': "2 ^ (k - 1) \<le> m" using lo bl by (simp add: k_def nat_diff_distrib)
    have dm: "b - 1 = a * m + (b - 1) mod a" unfolding m_def by simp
    have r0: "0 \<le> (b - 1) mod a" and r1: "(b - 1) mod a < a" using a by simp_all
    have am: "a * m \<le> b - 1" using dm r0 by linarith
    have bm: "b - 1 < a * (m + 1)" using dm r1 by (simp add: algebra_simps)
    have i1: "b \<le> a * 2 ^ k"
    proof -
      from hi have "m + 1 \<le> 2 ^ k" by simp
      with a have "a * (m + 1) \<le> a * 2 ^ k" by (simp add: mult_left_mono)
      with bm show ?thesis by linarith
    qed
    have i2: "a * 2 ^ (k - 1) < b"
    proof -
      from lo' a have "a * 2 ^ (k - 1) \<le> a * m" by (simp add: mult_left_mono)
      with am show ?thesis by linarith
    qed
    have p1: "(2::rat) powi (ilog2 x) = 1 / 2 ^ k"
      by (simp add: e kb power_int_minus_divide)
    have p2: "(2::rat) powi (ilog2 x + 1) = 1 / 2 ^ (k - 1)"
    proof -
      have "ilog2 x + 1 = - int (k - 1)" using k1 by (simp add: e kb)
      then show ?thesis by (simp add: power_int_minus_divide del: of_nat_diff)
    qed
    have c1: "2 powi (ilog2 x) \<le> x"
    proof -
      from i1 have "(of_int b :: rat) \<le> of_int (a * 2 ^ k)" by (simp only: of_int_le_iff)
      then have "(of_int b :: rat) \<le> of_int a * 2 ^ k" by simp
      then have "1 / 2 ^ k \<le> (of_int a :: rat) / of_int b"
        using b by (simp add: field_simps)
      then show ?thesis using p1 x by simp
    qed
    have c2: "x < 2 powi (ilog2 x + 1)"
    proof -
      from i2 have "(of_int (a * 2 ^ (k - 1)) :: rat) < of_int b" by (simp only: of_int_less_iff)
      then have "(of_int a :: rat) * 2 ^ (k - 1) < of_int b" by simp
      then have "(of_int a :: rat) / of_int b < 1 / 2 ^ (k - 1)"
        using b by (simp add: field_simps)
      then show ?thesis using p2 x by simp
    qed
    from c1 c2 show ?thesis by simp
  qed
qed

lemma ilog2_unique:
  assumes "0 < x" "2 powi e \<le> x" "x < 2 powi (e + 1)"
  shows "ilog2 x = e"
proof -
  from ilog2_bounds [OF assms(1)]
  have lo: "2 powi (ilog2 x) \<le> x" and hi: "x < 2 powi (ilog2 x + 1)" by auto
  have "\<not> e + 1 \<le> ilog2 x"
  proof
    assume "e + 1 \<le> ilog2 x"
    then have "(2::rat) powi (e + 1) \<le> 2 powi (ilog2 x)"
      by (intro power_int_increasing) auto
    with lo assms(3) show False by linarith
  qed
  moreover have "\<not> ilog2 x + 1 \<le> e"
  proof
    assume "ilog2 x + 1 \<le> e"
    then have "(2::rat) powi (ilog2 x + 1) \<le> 2 powi e"
      by (intro power_int_increasing) auto
    with hi assms(2) show False by linarith
  qed
  ultimately show ?thesis by linarith
qed

lemma round_binary64_at:
  assumes "2 powi e \<le> \<bar>x\<bar>" "\<bar>x\<bar> < 2 powi (e + 1)" "- 1022 \<le> e"
  shows "round_binary64 x = of_int (round_half_even (x / 2 powi (e - 52))) * 2 powi (e - 52)"
proof -
  have "(0::rat) < 2 powi e" by (simp add: zero_less_power_int)
  with assms(1) have pos: "0 < \<bar>x\<bar>" by linarith
  then have nz: "x \<noteq> 0" by simp
  from ilog2_unique [OF pos assms(1,2)] have "ilog2 \<bar>x\<bar> = e" .
  with nz assms(3) show ?thesis by (simp add: round_binary64_def Let_def max_def)
qed


section \<open>The TM/MT word split\<close>

lemma int_of_hundredth_exact:
  assumes "0 \<le> a" "a < 2 ^ 53"
  shows "int_of_hundredth a = Inr (a div 100)"
proof (cases "a = 0")
  case True
  then show ?thesis
    by (simp add: int_of_hundredth_def int_truediv_def float_of_rat_def round_binary64_def
          int_of_float_def)
next
  case False
  with assms have apos: "0 < a" by simp
  define x :: rat where "x = of_int a / 100"
  define n where "n = a div 100"
  define e where "e = max (ilog2 \<bar>x\<bar>) (- 1022)"
  define k where "k = nat (52 - e)"
  have xpos: "0 < x" using apos by (simp add: x_def)
  have fl: "\<lfloor>x\<rfloor> = n"
    using floor_divide_of_int_eq [of a 100, where ?'a = rat] by (simp add: x_def n_def)
  have n0: "0 \<le> n" using assms by (simp add: n_def)
  have nx: "of_int n \<le> x" using fl by (metis of_int_floor_le)
  have xn: "x \<le> of_int n + 99 / 100"
  proof -
    have "a = 100 * n + a mod 100" by (simp add: n_def)
    moreover have "a mod 100 \<le> 99" using pos_mod_bound [of 100 a] by simp
    ultimately have "a \<le> 100 * n + 99" by linarith
    then have "(of_int a :: rat) \<le> of_int (100 * n + 99)" by (simp only: of_int_le_iff)
    then show ?thesis by (simp add: x_def)
  qed
  have xlt: "x < 2 ^ 47"
  proof -
    from assms(2) have "(of_int a :: rat) < of_int (2 ^ 53)" by (simp only: of_int_less_iff)
    then show ?thesis by (simp add: x_def)
  qed
  have e46: "e \<le> 46"
  proof -
    from ilog2_bounds [of "\<bar>x\<bar>"] xpos have "2 powi (ilog2 \<bar>x\<bar>) \<le> x" by simp
    with xlt have "(2::rat) powi (ilog2 \<bar>x\<bar>) < 2 powi 47" by simp
    then have "ilog2 \<bar>x\<bar> < 47" by (intro power_int_le_imp_less_exp [of "2::rat"]) auto
    then show ?thesis by (simp add: e_def)
  qed
  have k6: "6 \<le> k" using e46 by (simp add: k_def)
  have q: "(2::rat) powi (e - 52) = 1 / 2 ^ k"
  proof -
    have "e - 52 = - int k" using e46 by (simp add: k_def)
    then show ?thesis by (simp add: power_int_minus_divide)
  qed
  define r where "r = round_half_even (x * 2 ^ k)"
  have "round_binary64 x = of_int (round_half_even (x / 2 powi (e - 52))) * 2 powi (e - 52)"
    using xpos by (simp add: round_binary64_def Let_def e_def)
  then have y: "round_binary64 x = of_int r / 2 ^ k"
    by (simp add: q r_def)
  have lo: "of_int n \<le> (of_int r :: rat) / 2 ^ k"
  proof -
    have "of_int n * 2 ^ k \<le> x * 2 ^ k" using nx by (simp add: mult_right_mono)
    from round_half_even_mono [OF this]
    have "round_half_even (of_int (n * 2 ^ k)) \<le> r" by (simp add: r_def)
    then have "n * 2 ^ k \<le> r" by (simp only: round_half_even_of_int)
    then have "(of_int (n * 2 ^ k) :: rat) \<le> of_int r" by (simp only: of_int_le_iff)
    then show ?thesis by (simp add: field_simps)
  qed
  have hi: "(of_int r :: rat) / 2 ^ k < of_int n + 1"
  proof -
    have "(of_int r :: rat) \<le> x * 2 ^ k + 1 / 2"
      unfolding r_def by (rule round_half_even_upper)
    then have "(of_int r :: rat) / 2 ^ k \<le> (x * 2 ^ k + 1 / 2) / 2 ^ k"
      by (simp add: divide_right_mono)
    also have "\<dots> = x + 1 / (2 * 2 ^ k)" by (simp add: field_simps)
    also have "\<dots> \<le> x + 1 / (2 * 2 ^ 6)"
    proof -
      have "(2::rat) ^ 6 \<le> 2 ^ k" using k6 by (intro power_increasing) auto
      then show ?thesis by (simp add: field_simps del: power_increasing_iff)
    qed
    also have "\<dots> < of_int n + 1" using xn by simp
    finally show ?thesis .
  qed
  have fy: "\<lfloor>(of_int r :: rat) / 2 ^ k\<rfloor> = n"
    using lo hi by (intro floor_unique) auto
  have y0: "0 \<le> (of_int r :: rat) / 2 ^ k" using lo n0 by (meson of_int_0_le_iff order_trans)
  have small: "(of_int r :: rat) / 2 ^ k < 2 ^ 1024"
  proof -
    have "a = 100 * n + a mod 100" by (simp add: n_def)
    moreover have "0 \<le> a mod 100" by simp
    ultimately have "n \<le> a" using n0 by linarith
    with assms(2) have "n < 2 ^ 53" by linarith
    then have "n + 1 \<le> 2 ^ 53" by simp
    then have "(of_int (n + 1) :: rat) \<le> of_int (2 ^ 53)" by (simp only: of_int_le_iff)
    then have "(of_int n :: rat) + 1 \<le> 2 ^ 53" by simp
    also have "(2::rat) ^ 53 < 2 ^ 1024" by simp
    finally show ?thesis using hi by linarith
  qed
  have "float_of_rat x = Finite (of_int r / 2 ^ k)"
    using small y0 by (simp add: float_of_rat_def y Let_def)
  then show ?thesis
    using fy y0 by (simp add: int_of_hundredth_def int_truediv_def x_def [symmetric] n_def
        int_of_float_def)
qed

lemma int_of_hundredth_huge:
  "int_of_hundredth (18014398509481987 * 50) = Inr 9007199254740994"
proof -
  have fl: "\<lfloor>18014398509481987 / 4 :: rat\<rfloor> = 4503599627370496"
    by (rule floor_unique) simp_all
  have "round_binary64 (18014398509481987 * 50 / 100) = 9007199254740994"
    by (subst round_binary64_at [where e = 53]) (simp_all add: round_half_even_def Let_def fl)
  then show ?thesis
    by (simp add: int_of_hundredth_def int_truediv_def float_of_rat_def int_of_float_def)
qed

lemma get_tm_words_explicit: "tm_words d = Some t \<Longrightarrow> get_tm_words d p = Inr t"
  by (simp add: get_tm_words_def has_tm_mt_breakdown_def)

lemma get_mt_words_explicit: "mt_words d = Some m \<Longrightarrow> get_mt_words d p = Inr m"
  by (simp add: get_mt_words_def has_tm_mt_breakdown_def)

lemma get_tm_words_computed:
  "tm_words d = None \<Longrightarrow>
   get_tm_words d p =
     (if category d = EXACT_MATCH then int_of_hundredth (words d * (100 - p)) else Inr (words d))"
  by (simp add: get_tm_words_def supports_mt_breakdown_def Let_def)

lemma get_mt_words_computed:
  "mt_words d = None \<Longrightarrow>
   get_mt_words d p =
     (if category d = EXACT_MATCH then int_of_hundredth (words d * p) else Inr 0)"
  by (simp add: get_mt_words_def supports_mt_breakdown_def)

lemma int_of_hundredth_0: "int_of_hundredth 0 = Inr 0"
  using int_of_hundredth_exact [of 0] by simp

lemma product_below:
  assumes "0 \<le> (w::int)" "0 \<le> p" "p \<le> 100" "w * 100 < 2 ^ 53"
  shows "0 \<le> w * p \<and> w * p < 2 ^ 53"
proof -
  from assms have "w * p \<le> w * 100" by (intro mult_left_mono) auto
  with assms show ?thesis by simp
qed

lemma split_sum_le:
  assumes "0 \<le> (p::int)" "p \<le> 100"
  shows "w * (100 - p) div 100 + w * p div 100 \<le> w"
proof -
  let ?a = "w * (100 - p)" and ?b = "w * p"
  have "?a = 100 * (?a div 100) + ?a mod 100" "?b = 100 * (?b div 100) + ?b mod 100"
    by simp_all
  moreover have "0 \<le> ?a mod 100" "0 \<le> ?b mod 100" by simp_all
  moreover have "?a + ?b = 100 * w" by (simp add: algebra_simps)
  ultimately show ?thesis by linarith
qed

text \<open>
  C2, as the code has it. For a category with a word count of at least 0 and a percentage
  between 0 and 100: an explicit \<open>tm_words\<close> or \<open>mt_words\<close> is returned as it is; without
  it, the exact-match category returns \<open>words * (100 - p) div 100\<close> and \<open>words * p div 100\<close>
  as long as \<open>words * 100 < 2 ^ 53\<close> (the quotient is a float division, truncated), and every
  other category returns all its words as TM and 0 as MT. So for the exact-match category
  without breakdown and \<open>words * 100 < 2 ^ 53\<close> the two parts sum to at most \<open>words\<close>; MT is
  0 at percentage 0 and TM is 0 at percentage 100, whatever the word count.
\<close>

theorem tm_mt_split:
  assumes "0 \<le> words d" "0 \<le> p" "p \<le> 100"
  shows "(\<forall>t. tm_words d = Some t \<longrightarrow> get_tm_words d p = Inr t)
   \<and> (\<forall>m. mt_words d = Some m \<longrightarrow> get_mt_words d p = Inr m)
   \<and> (tm_words d = None \<and> category d = EXACT_MATCH \<and> words d * 100 < 2 ^ 53
        \<longrightarrow> get_tm_words d p = Inr (words d * (100 - p) div 100))
   \<and> (mt_words d = None \<and> category d = EXACT_MATCH \<and> words d * 100 < 2 ^ 53
        \<longrightarrow> get_mt_words d p = Inr (words d * p div 100))
   \<and> (tm_words d = None \<and> category d \<noteq> EXACT_MATCH \<longrightarrow> get_tm_words d p = Inr (words d))
   \<and> (mt_words d = None \<and> category d \<noteq> EXACT_MATCH \<longrightarrow> get_mt_words d p = Inr 0)
   \<and> (tm_words d = None \<and> mt_words d = None \<and> category d = EXACT_MATCH
        \<and> words d * 100 < 2 ^ 53
        \<longrightarrow> (\<exists>tm mt. get_cost_calculation_words d p
                        = Inr \<lparr>wb_tm = tm, wb_mt = mt, wb_total = words d\<rparr>
                    \<and> tm + mt \<le> words d))
   \<and> (mt_words d = None \<and> category d = EXACT_MATCH \<longrightarrow> get_mt_words d 0 = Inr 0)
   \<and> (tm_words d = None \<and> category d = EXACT_MATCH \<longrightarrow> get_tm_words d 100 = Inr 0)"
proof -
  have tm: "get_tm_words d p = Inr (words d * (100 - p) div 100)"
    if "tm_words d = None" "category d = EXACT_MATCH" "words d * 100 < 2 ^ 53"
  proof -
    from assms have "0 \<le> 100 - p" "100 - p \<le> 100" by simp_all
    from product_below [OF assms(1) this that(3)] that(1,2) show ?thesis
      by (simp add: get_tm_words_computed int_of_hundredth_exact)
  qed
  have mt: "get_mt_words d p = Inr (words d * p div 100)"
    if "mt_words d = None" "category d = EXACT_MATCH" "words d * 100 < 2 ^ 53"
    using product_below [OF assms that(3)] that(1,2)
    by (simp add: get_mt_words_computed int_of_hundredth_exact)
  have both: "\<exists>tm mt. get_cost_calculation_words d p
        = Inr \<lparr>wb_tm = tm, wb_mt = mt, wb_total = words d\<rparr> \<and> tm + mt \<le> words d"
    if "tm_words d = None" "mt_words d = None" "category d = EXACT_MATCH"
      "words d * 100 < 2 ^ 53"
    using tm [OF that(1,3,4)] mt [OF that(2,3,4)] split_sum_le [OF assms(2,3), of "words d"]
    by (simp add: get_cost_calculation_words_def)
  show ?thesis
    using tm mt both
    by (auto simp: get_tm_words_explicit get_mt_words_explicit get_tm_words_computed
          get_mt_words_computed int_of_hundredth_0)
qed

theorem tm_mt_split_witness:
  "get_tm_words (new_MatchCategoryData EXACT_MATCH 4 100 0 0 (Finite 100) None None None) 70
     = Inr 30
   \<and> get_mt_words (new_MatchCategoryData EXACT_MATCH 4 100 0 0 (Finite 100) None None None) 70
     = Inr 70
   \<and> get_tm_words (new_MatchCategoryData EXACT_MATCH 4 100 0 0 (Finite 100)
        (Some 45) (Some 55) None) 70 = Inr 45
   \<and> get_tm_words (new_MatchCategoryData LOW_FUZZY 4 100 0 0 (Finite 100) None None None) 70
     = Inr 100
   \<and> get_mt_words (new_MatchCategoryData LOW_FUZZY 4 100 0 0 (Finite 100) None None None) 70
     = Inr 0"
  using tm_mt_split [of "new_MatchCategoryData EXACT_MATCH 4 100 0 0 (Finite 100) None None None" 70]
    tm_mt_split [of "new_MatchCategoryData EXACT_MATCH 4 100 0 0 (Finite 100) (Some 45) (Some 55) None" 70]
    tm_mt_split [of "new_MatchCategoryData LOW_FUZZY 4 100 0 0 (Finite 100) None None None" 70]
  by (simp add: new_MatchCategoryData_def has_tm_mt_breakdown_def validate_tm_mt_breakdown_def
        supports_mt_breakdown_def)

text \<open>
  C2 as stated fails for large word counts: with \<open>2 ^ 54 + 3\<close> words and 50 percent, the
  float quotient \<open>2 ^ 53 + 1.5\<close> is rounded to \<open>2 ^ 53 + 2\<close>, so each part is one more than
  the truncated quotient and the two parts sum to more than the word count.
\<close>

theorem tm_mt_split_huge_counterexample:
  "category huge_exact_match = EXACT_MATCH
   \<and> words huge_exact_match = 18014398509481987
   \<and> tm_words huge_exact_match = None \<and> mt_words huge_exact_match = None
   \<and> get_tm_words huge_exact_match 50 = Inr 9007199254740994
   \<and> get_mt_words huge_exact_match 50 = Inr 9007199254740994
   \<and> (18014398509481987 * (100 - 50) div 100 :: int) = 9007199254740993
   \<and> (9007199254740994 + 9007199254740994 :: int) > 18014398509481987"
proof -
  have h: "huge_exact_match =
      \<lparr>category = EXACT_MATCH, segments = 1, words = 18014398509481987, characters = 0,
       placeables = 0, percent = Finite 100, tm_words = None, mt_words = None,
       nt_words = None\<rparr>"
    by (simp add: huge_exact_match_def new_MatchCategoryData_def has_tm_mt_breakdown_def
          float_max_def float_min_def)
  show ?thesis
    using int_of_hundredth_huge
    by (simp add: h get_tm_words_computed get_mt_words_computed)
qed

section \<open>Validation of the mapping and the parser\<close>

lemma indices_in_bounds_iff:
  "indices_in_bounds xs n \<longleftrightarrow> (\<forall>i \<in> set xs. 0 \<le> i \<and> i < n)"
  by (induction xs) auto

text \<open>
  C6. Validation accepts a mapping for a column count exactly when the fixed columns have
  the key \<open>File\<close>, at least one category is mapped, and every column index recorded (fixed
  columns, total section, every category) is at least 0 and below the column count. When it
  rejects the mapping for the cells of the first data row, \<open>_parse_data_rows\<close> returns
  \<open>None\<close> whatever the row holds, and so does \<open>parse\<close> for the file.
\<close>

theorem validate_mapping_iff:
  "(validate_mapping mapping n \<longleftrightarrow>
      ''File'' \<in> set (dict_keys (fixed_columns mapping))
      \<and> mapped_categories mapping \<noteq> []
      \<and> (\<forall>i \<in> set (dict_values (fixed_columns mapping))
               \<union> set (dict_values (total_columns mapping))
               \<union> (\<Union>m \<in> set (dict_values (mapped_categories mapping)). set (dict_values m)).
            0 \<le> i \<and> i < n))
   \<and> (\<not> validate_mapping mapping (len (row_cells first_row))
        \<longrightarrow> parse_data_rows (first_row # more_rows) mapping = Inr None)
   \<and> (map_columns [line1, line2] = Inr mapping
        \<and> \<not> validate_mapping mapping (len (row_cells first_row))
        \<longrightarrow> parse (line1 # line2 # first_row # more_rows) path = None)"
proof -
  have a: "validate_mapping mapping n \<longleftrightarrow>
      ''File'' \<in> set (dict_keys (fixed_columns mapping))
      \<and> mapped_categories mapping \<noteq> []
      \<and> (\<forall>i \<in> set (dict_values (fixed_columns mapping))
               \<union> set (dict_values (total_columns mapping))
               \<union> (\<Union>m \<in> set (dict_values (mapped_categories mapping)). set (dict_values m)).
            0 \<le> i \<and> i < n)"
    by (auto simp: validate_mapping_def Let_def indices_in_bounds_iff)
  have b: "parse_data_rows (first_row # more_rows) mapping = Inr None"
    if "\<not> validate_mapping mapping (len (row_cells first_row))"
    using that by (simp add: parse_data_rows_def Let_def)
  have c: "parse (line1 # line2 # first_row # more_rows) path = None"
    if "map_columns [line1, line2] = Inr mapping"
      "\<not> validate_mapping mapping (len (row_cells first_row))"
    using that b by (simp add: parse_def)
  from a b c show ?thesis by blast
qed

theorem validate_mapping_iff_witness:
  "\<not> validate_mapping short_mapping (len (row_cells ''f | en>de;0;1;2;5;6''))
   \<and> parse_data_rows [''f | en>de;0;1;2;5;6''] short_mapping = Inr None
   \<and> parse [short_header_1, short_header_2, ''f | en>de;0;1;2;5;6''] ''f.csv'' = None
   \<and> validate_mapping short_mapping 9"
proof -
  have n: "len (row_cells ''f | en>de;0;1;2;5;6'') = 6"
    by code_simp
  have v6: "\<not> validate_mapping short_mapping 6"
    using validate_mapping_iff [of short_mapping 6]
    by (simp add: short_mapping_def dict_keys_def dict_values_def)
  have v9: "validate_mapping short_mapping 9"
    using validate_mapping_iff [of short_mapping 9]
    by (simp add: short_mapping_def dict_keys_def dict_values_def)
  from validate_mapping_iff
         [of short_mapping 6 "''f | en>de;0;1;2;5;6''" "[]" short_header_1 short_header_2 "''f.csv''"]
       v6 v9 n map_columns_short
  show ?thesis by simp
qed

section \<open>Serialization\<close>

lemma categories_to_dict_nonempty: "cats \<noteq> [] \<Longrightarrow> categories_to_dict cats = Inl AttributeError"
  by (cases cats) (auto simp: MatchCategoryData_to_dict_def)

lemma new_FileAnalysisData_categories:
  "file_categories (new_FileAnalysisData fn src tgt cats fp ad ct) \<noteq> []"
  by (simp add: new_FileAnalysisData_def get_standard_categories_def)

text \<open>
  C7 fails on the code: \<open>to_dict\<close> raises \<open>AttributeError\<close> for every category object, and
  so for every \<open>FileAnalysisData\<close> the constructor builds, since its categories are never
  empty. No dictionary is produced that \<open>from_dict\<close> could read back.
\<close>

theorem to_dict_raises:
  "FileAnalysisData_to_dict (new_FileAnalysisData fn src tgt cats fp ad ct) = Inl AttributeError
   \<and> MatchCategoryData_to_dict d = Inl AttributeError"
  using categories_to_dict_nonempty [OF new_FileAnalysisData_categories [of fn src tgt cats fp ad ct]]
  by (simp add: FileAnalysisData_to_dict_def MatchCategoryData_to_dict_def)

section \<open>Safe numeric conversion\<close>

lemma round_binary64_overflow:
  assumes "2 ^ 1024 \<le> x"
  shows "2 ^ 1024 \<le> round_binary64 x"
proof -
  have xpos: "0 < x" using assms by (meson less_le_trans zero_less_numeral zero_less_power)
  define e where "e = ilog2 \<bar>x\<bar>"
  define q :: rat where "q = 2 powi (e - 52)"
  from ilog2_bounds [of "\<bar>x\<bar>"] xpos
  have lo: "2 powi e \<le> x" and hi: "x < 2 powi (e + 1)" by (simp_all add: e_def)
  have e1024: "1024 \<le> e"
  proof -
    from assms hi have "(2::rat) powi 1024 < 2 powi (e + 1)" by simp
    then have "1024 < e + 1"
      by (metis linorder_not_le one_le_numeral power_int_increasing)
    then show ?thesis by simp
  qed
  have qpos: "0 < q" by (simp add: q_def zero_less_power_int)
  have pq: "(2::rat) powi e = 2 ^ 52 * q"
  proof -
    have "(2::rat) powi e = 2 powi (52 + (e - 52))" by simp
    also have "\<dots> = 2 powi 52 * 2 powi (e - 52)" by (subst power_int_add) simp_all
    finally show ?thesis by (simp add: q_def)
  qed
  have "of_int (2 ^ 52) \<le> x / q"
    using lo qpos by (simp add: pq field_simps)
  from round_half_even_mono [OF this]
  have "2 ^ 52 \<le> round_half_even (x / q)" by (simp only: round_half_even_of_int)
  then have "(of_int (2 ^ 52) :: rat) \<le> of_int (round_half_even (x / q))"
    by (simp only: of_int_le_iff)
  then have "2 ^ 52 * q \<le> of_int (round_half_even (x / q)) * q"
    using qpos by (simp add: mult_right_mono)
  then have "2 powi e \<le> of_int (round_half_even (x / q)) * q" by (simp add: pq)
  moreover have "(2::rat) powi 1024 \<le> 2 powi e"
    using e1024 by (intro power_int_increasing) auto
  moreover have "round_binary64 x = of_int (round_half_even (x / q)) * q"
    unfolding q_def using xpos lo hi e1024 by (intro round_binary64_at) simp_all
  ultimately show ?thesis by simp
qed

lemma float_of_rat_overflow: "2 ^ 1024 \<le> x \<Longrightarrow> float_of_rat x = PosInf"
  using round_binary64_overflow [of x] by (simp add: float_of_rat_def Let_def)

lemma float_of_str_1e400: "float_of_str ''1.0e400'' = Inr PosInf"
proof -
  have "(2::rat) ^ 1024 \<le> 10 * 10 ^ 399" by simp
  then have "float_of_rat (10 * 10 ^ 399) = PosInf" by (rule float_of_rat_overflow)
  then show ?thesis
    by (simp add: float_of_str_def take_sign_def take_digitpart_def is_digit_def lower_def
          lower_char_def take_exponent_def digits_value_def digit_value_def Let_def)
qed

text \<open>
  C9 fails on the code for the integer path: the cell \<open>1.0e400\<close> contains a point, its
  float is infinite, and \<open>int\<close> of an infinite float raises \<open>OverflowError\<close>, which the
  handler for \<open>ValueError\<close> and \<open>TypeError\<close> does not catch.
\<close>

theorem safe_int_conversion_overflow:
  "safe_int_conversion [''1.0e400''] 0 = Inl OverflowError"
  by (simp add: safe_int_conversion_def strip_def py_isspace_def float_of_str_1e400
        int_of_float_def except_value_type_error_def)

lemma round_binary64_of_int:
  assumes "\<bar>n\<bar> < 2 ^ 53"
  shows "round_binary64 (of_int n) = of_int n"
proof (cases "n = 0")
  case True
  then show ?thesis by (simp add: round_binary64_def)
next
  case False
  define x :: rat where "x = of_int n"
  define e where "e = ilog2 \<bar>x\<bar>"
  define k where "k = nat (52 - e)"
  have xpos: "0 < \<bar>x\<bar>" using False by (simp add: x_def)
  from ilog2_bounds [OF xpos]
  have lo: "2 powi e \<le> \<bar>x\<bar>" and hi: "\<bar>x\<bar> < 2 powi (e + 1)" by (simp_all add: e_def)
  have x1: "1 \<le> \<bar>x\<bar>"
  proof -
    from False have "1 \<le> \<bar>n\<bar>" by simp
    then have "(of_int 1 :: rat) \<le> of_int \<bar>n\<bar>" by (simp only: of_int_le_iff)
    then show ?thesis by (simp add: x_def)
  qed
  have x53: "\<bar>x\<bar> < 2 ^ 53"
  proof -
    from assms have "(of_int \<bar>n\<bar> :: rat) < of_int (2 ^ 53)" by (simp only: of_int_less_iff)
    then show ?thesis by (simp add: x_def)
  qed
  have e0: "0 \<le> e"
  proof -
    from x1 hi have "(2::rat) powi 0 < 2 powi (e + 1)" by simp
    then have "0 < e + 1" by (metis linorder_not_le one_le_numeral power_int_increasing)
    then show ?thesis by simp
  qed
  have e52: "e \<le> 52"
  proof -
    from lo x53 have "(2::rat) powi e < 2 powi 53" by simp
    then have "e < 53" by (intro power_int_le_imp_less_exp [of "2::rat"]) auto
    then show ?thesis by simp
  qed
  have q: "(2::rat) powi (e - 52) = 1 / 2 ^ k"
  proof -
    have "e - 52 = - int k" using e52 by (simp add: k_def)
    then show ?thesis by (simp add: power_int_minus_divide)
  qed
  have "round_binary64 x = of_int (round_half_even (x / 2 powi (e - 52))) * 2 powi (e - 52)"
    using lo hi e0 by (intro round_binary64_at) simp_all
  also have "x / 2 powi (e - 52) = of_int (n * 2 ^ k)" by (simp add: q x_def)
  also have "round_half_even (of_int (n * 2 ^ k)) = n * 2 ^ k" by (rule round_half_even_of_int)
  finally show ?thesis by (simp add: q x_def)
qed

lemma float_of_rat_of_int: "\<bar>n\<bar> < 2 ^ 53 \<Longrightarrow> float_of_rat (of_int n) = Finite (of_int n)"
proof -
  assume a: "\<bar>n\<bar> < 2 ^ 53"
  then have "(of_int \<bar>n\<bar> :: rat) < of_int (2 ^ 53)" by (simp only: of_int_less_iff)
  then have "\<bar>of_int n :: rat\<bar> < 2 ^ 53" by simp
  moreover have "(2::rat) ^ 53 < 2 ^ 1024" by simp
  ultimately have "(of_int n :: rat) < 2 ^ 1024" "- (2 ^ 1024) < (of_int n :: rat)" by linarith+
  then show ?thesis using round_binary64_of_int [OF a] by (simp add: float_of_rat_def Let_def)
qed

lemma float_of_str_raises_ValueError: "float_of_str s = Inl e \<Longrightarrow> e = ValueError"
  by (auto simp: float_of_str_def Let_def split: prod.splits if_splits option.splits list.splits)

lemma safe_float_conversion_total: "\<exists>x. safe_float_conversion row_data col_index = Inr x"
proof (cases "float_of_str (strip (row_data ! nat col_index))")
  case (Inl e)
  with float_of_str_raises_ValueError [OF Inl] show ?thesis
    by (simp add: safe_float_conversion_def except_value_type_error_def Let_def)
next
  case (Inr x)
  then show ?thesis
    by (simp add: safe_float_conversion_def except_value_type_error_def Let_def)
qed

lemma strings_stripped:
  "strip '''' = ''''" "strip ''abc'' = ''abc''" "strip ''12.0'' = ''12.0''" "strip ''12'' = ''12''"
  by (simp_all add: strip_def py_isspace_def)

lemma float_of_str_12: "float_of_str ''12.0'' = Inr (Finite 12)" "float_of_str ''12'' = Inr (Finite 12)"
  using float_of_rat_of_int [of 12]
  by (simp_all add: float_of_str_def take_sign_def take_digitpart_def is_digit_def lower_def
        lower_char_def take_exponent_def digits_value_def digit_value_def Let_def)

lemma float_of_str_abc: "float_of_str ''abc'' = Inl ValueError"
  by (simp add: float_of_str_def take_sign_def take_digitpart_def is_digit_def lower_def
        lower_char_def take_exponent_def digits_value_def digit_value_def Let_def)

lemma int_of_str_examples: "int_of_str ''abc'' = Inl ValueError" "int_of_str ''12'' = Inr 12"
  by (simp_all add: int_of_str_def take_sign_def take_digitpart_def is_digit_def
        digits_value_def digit_value_def max_str_digits_def)

text \<open>
  The safe conversions on the cells \<open>""\<close>, \<open>"abc"\<close>, \<open>"12.0"\<close> and \<open>"12"\<close>, on a column index
  out of range, and the float path never raising.
\<close>

theorem safe_conversion_examples:
  "safe_int_conversion [''''] 0 = Inr 0 \<and> safe_int_conversion [''abc''] 0 = Inr 0
   \<and> safe_int_conversion [''12.0''] 0 = Inr 12 \<and> safe_int_conversion [''12''] 0 = Inr 12
   \<and> safe_float_conversion [''''] 0 = Inr (Finite 0)
   \<and> safe_float_conversion [''abc''] 0 = Inr (Finite 0)
   \<and> safe_float_conversion [''12.0''] 0 = Inr (Finite 12)
   \<and> safe_float_conversion [''12''] 0 = Inr (Finite 12)
   \<and> (if col_index < 0 \<or> len row_data \<le> col_index
       then safe_int_conversion row_data col_index = Inr 0
            \<and> safe_float_conversion row_data col_index = Inr (Finite 0)
       else True)
   \<and> (\<exists>x. safe_float_conversion row_data col_index = Inr x)"
  using safe_float_conversion_total [of row_data col_index]
  by (simp add: safe_int_conversion_def safe_float_conversion_def strings_stripped
        float_of_str_12 float_of_str_abc int_of_str_examples int_of_float_def
        except_value_type_error_def)

section \<open>Decimal arithmetic\<close>

lemma ten_powi_pos: "(0::rat) < 10 powi e"
  by (simp add: zero_less_power_int)

lemma dec_value_nonneg_iff: "0 \<le> dec_value d \<longleftrightarrow> 0 \<le> coefficient d"
proof -
  have "\<not> (10::rat) powi exponent d \<le> 0"
    using ten_powi_pos [of "exponent d"] by (simp only: not_le)
  then show ?thesis by (auto simp: dec_value_def zero_le_mult_iff)
qed


lemma round_half_even_nonneg: "0 \<le> x \<Longrightarrow> 0 \<le> round_half_even x"
  using round_half_even_mono [of 0 x] round_half_even_of_int [of 0] by simp

lemma ndigits_0: "ndigits 0 = 0"
  by (simp add: ndigits.simps)







lemma dec_fix_nonneg: "0 \<le> coefficient d \<Longrightarrow> 0 \<le> coefficient (dec_fix d)"
proof -
  assume a: "0 \<le> coefficient d"
  have "0 \<le> round_half_even (of_int (coefficient d) / 10 ^ k)" for k
    by (intro round_half_even_nonneg divide_nonneg_nonneg) (simp_all add: a)
  then show ?thesis using a
    by (auto simp: dec_fix_def Let_def pos_imp_zdiv_nonneg_iff)
qed

lemma dec_mul_nonneg:
  "0 \<le> coefficient a \<Longrightarrow> 0 \<le> coefficient b \<Longrightarrow> 0 \<le> coefficient (dec_mul a b)"
  unfolding dec_mul_def by (rule dec_fix_nonneg) simp

lemma dec_add_nonneg:
  "0 \<le> coefficient a \<Longrightarrow> 0 \<le> coefficient b \<Longrightarrow> 0 \<le> coefficient (dec_add a b)"
  unfolding dec_add_def Let_def by (rule dec_fix_nonneg) simp

lemma quantize_nonneg:
  assumes "quantize t d = Inr q" "0 \<le> coefficient d"
  shows "0 \<le> coefficient q"
proof -
  have "0 \<le> round_half_even (of_int (coefficient d) * 10 powi (exponent d - t))"
    by (intro round_half_even_nonneg mult_nonneg_nonneg)
       (simp_all add: assms(2) less_imp_le [OF ten_powi_pos])
  with assms(1) show ?thesis
    by (auto simp: quantize_def Let_def split: if_splits)
qed



lemma round_half_even_numeral [simp]: "round_half_even (numeral k) = numeral k"
  using round_half_even_of_int [of "numeral k"] by simp

lemma round_half_even_0 [simp]: "round_half_even 0 = 0"
  using round_half_even_of_int [of 0] by simp




section \<open>Project cost and minimum fee\<close>


lemma priced_counts_Cons:
  "priced_counts rates ((cat, w) # rest) =
     (if w \<le> 0 then [] else case map_of rates cat of None \<Rightarrow> [] | Some r \<Rightarrow> [(r, w)])
     @ priced_counts rates rest"
  by (simp add: priced_counts_def)

lemma priced_counts_Nil: "priced_counts rates [] = []"
  by (simp add: priced_counts_def)






lemma priced_counts_props:
  "(r, w) \<in> set (priced_counts rates wc) \<Longrightarrow> 0 < w \<and> (\<exists>cat. (cat, r) \<in> set rates)"
proof (induction wc)
  case Nil
  then show ?case by (simp add: priced_counts_Nil)
next
  case (Cons a wc)
  obtain cat w' where a: "a = (cat, w')" by (cases a)
  have "(cat, r') \<in> set rates" if "Some r' = map_of rates cat" for r'
    using that [symmetric] by (rule map_of_SomeD)
  with Cons a show ?case
    by (auto simp: priced_counts_Cons split: if_splits option.splits)
qed









section \<open>The cost breakdown\<close>


















section \<open>Decimal quantization and the conversion to floats\<close>






















end
